theory Spec2Isabelle
  imports Main "HOL-Library.AList"
begin

section \<open>Values of the host language\<close>

text \<open>
  The workspace core of coc.nvim (\<^verbatim>\<open>src/workspace.ts\<close>) is a class whose methods
  mutate the fields of the workspace object, the file system and the editor. Each method
  is embedded as a function that takes the workspace and returns the updated one, with
  a result of type \<open>error + 'a\<close> where the method can raise (a rejected promise of an
  \<^verbatim>\<open>async\<close> method is the raised error).
\<close>

datatype error = TypeError string | SystemError string

fun message :: "error \<Rightarrow> string" where
  "message (TypeError m) = m"
| "message (SystemError m) = m"

text \<open>\<^verbatim>\<open>String.prototype.startsWith\<close> and \<^verbatim>\<open>endsWith\<close>.\<close>

definition startsWith :: "string \<Rightarrow> string \<Rightarrow> bool" where
  "startsWith s p = (take (length p) s = p)"

definition endsWith :: "string \<Rightarrow> string \<Rightarrow> bool" where
  "endsWith s p = (length p \<le> length s \<and> drop (length s - length p) s = p)"

text \<open>A number inside a template string: its decimal digits.\<close>

fun showNat :: "nat \<Rightarrow> string" where
  "showNat n = (if n < 10 then [''0123456789'' ! n]
                else showNat (n div 10) @ [''0123456789'' ! (n mod 10)])"

declare showNat.simps [simp del]

text \<open>\<^verbatim>\<open>names.join(' ')\<close>.\<close>

fun joinWith :: "string \<Rightarrow> string list \<Rightarrow> string" where
  "joinWith sep [] = []"
| "joinWith sep [x] = x"
| "joinWith sep (x # y # ys) = x @ sep @ joinWith sep (y # ys)"

section \<open>The file system\<close>

text \<open>
  Node's \<^verbatim>\<open>fs\<close> module works on the file system of the host. The model is a finite
  table from paths to the nodes below the root directory. Path resolution is the one
  of POSIX for the cases the code meets: the empty path names nothing (\<^verbatim>\<open>ENOENT\<close>);
  a path made of separators only is the root directory, which always exists; trailing
  separators are dropped for a directory (\<^verbatim>\<open>/tmp/dir/\<close> and \<^verbatim>\<open>/tmp/dir\<close> name the
  same node); a regular file written with a trailing separator is not found
  (\<^verbatim>\<open>ENOTDIR\<close>). Parent directories are not tracked: an operation fails only for the
  reasons written out below.
\<close>

datatype node = File string | Directory

type_synonym filesystem = "(string \<times> node) list"

definition pathKey :: "string \<Rightarrow> string" where
  "pathKey p = rev (dropWhile (\<lambda>c. c = CHR ''/'') (rev p))"

definition lookupPath :: "filesystem \<Rightarrow> string \<Rightarrow> node option" where
  "lookupPath fs p =
     (if p = [] then None
      else if pathKey p = [] then Some Directory
      else case map_of fs (pathKey p) of
             None \<Rightarrow> None
           | Some Directory \<Rightarrow> Some Directory
           | Some (File c) \<Rightarrow> if endsWith p ''/'' then None else Some (File c))"

fun isDirectory :: "node \<Rightarrow> bool" where
  "isDirectory Directory = True"
| "isDirectory (File c) = False"

fun isFile :: "node \<Rightarrow> bool" where
  "isFile (File c) = True"
| "isFile Directory = False"

definition hasEntries :: "filesystem \<Rightarrow> string \<Rightarrow> bool" where
  "hasEntries fs p = list_ex (\<lambda>e. startsWith (fst e) (pathKey p @ ''/'')) fs"

definition existsSync :: "filesystem \<Rightarrow> string \<Rightarrow> bool" where
  "existsSync fs p = (lookupPath fs p \<noteq> None)"

definition readFileSync :: "filesystem \<Rightarrow> string \<Rightarrow> error + string" where
  "readFileSync fs p =
     (case lookupPath fs p of
        None \<Rightarrow> Inl (SystemError ''ENOENT: no such file or directory'')
      | Some Directory \<Rightarrow> Inl (SystemError ''EISDIR: illegal operation on a directory'')
      | Some (File c) \<Rightarrow> Inr c)"

definition writeFileSync :: "filesystem \<Rightarrow> string \<Rightarrow> string \<Rightarrow> error + filesystem" where
  "writeFileSync fs p c =
     (if p = [] then Inl (SystemError ''ENOENT: no such file or directory'')
      else if endsWith p ''/''
      then Inl (SystemError ''EISDIR: illegal operation on a directory'')
      else case lookupPath fs p of
        Some Directory \<Rightarrow> Inl (SystemError ''EISDIR: illegal operation on a directory'')
      | Some (File old) \<Rightarrow> Inr (AList.update (pathKey p) (File c) fs)
      | None \<Rightarrow> Inr (AList.update (pathKey p) (File c) fs))"

definition mkdir :: "filesystem \<Rightarrow> string \<Rightarrow> error + filesystem" where
  "mkdir fs p =
     (if p = [] then Inl (SystemError ''ENOENT: no such file or directory'')
      else if pathKey p = [] then Inl (SystemError ''EEXIST: file already exists'')
      else case map_of fs (pathKey p) of
        Some n \<Rightarrow> Inl (SystemError ''EEXIST: file already exists'')
      | None \<Rightarrow> Inr (AList.update (pathKey p) Directory fs))"

definition rmdir :: "filesystem \<Rightarrow> string \<Rightarrow> error + filesystem" where
  "rmdir fs p =
     (case lookupPath fs p of
        None \<Rightarrow> Inl (SystemError ''ENOENT: no such file or directory'')
      | Some (File c) \<Rightarrow> Inl (SystemError ''ENOTDIR: not a directory'')
      | Some Directory \<Rightarrow>
          if pathKey p = [] then Inl (SystemError ''EBUSY: resource busy or locked'')
          else if hasEntries fs p then Inl (SystemError ''ENOTEMPTY: directory not empty'')
          else Inr (AList.delete (pathKey p) fs))"

definition unlink :: "filesystem \<Rightarrow> string \<Rightarrow> error + filesystem" where
  "unlink fs p =
     (case lookupPath fs p of
        None \<Rightarrow> Inl (SystemError ''ENOENT: no such file or directory'')
      | Some Directory \<Rightarrow> Inl (SystemError ''EPERM: operation not permitted'')
      | Some (File c) \<Rightarrow> Inr (AList.delete (pathKey p) fs))"

text \<open>
  \<^verbatim>\<open>fs.rename\<close>: the node moves to the new path, and with a directory the entries
  below it. The root directory does not move, a directory with entries is not
  replaced, and a directory replaces a directory only, a file a file only.
\<close>

definition movedKey :: "string \<Rightarrow> string \<Rightarrow> string \<Rightarrow> string" where
  "movedKey old new k =
     (if k = old then new
      else if startsWith k (old @ ''/'') then new @ drop (length old) k
      else k)"

definition rename :: "filesystem \<Rightarrow> string \<Rightarrow> string \<Rightarrow> error + filesystem" where
  "rename fs old new =
     (case lookupPath fs old of
        None \<Rightarrow> Inl (SystemError ''ENOENT: no such file or directory'')
      | Some n \<Rightarrow>
          if new = [] then Inl (SystemError ''ENOENT: no such file or directory'')
          else if pathKey old = [] \<or> pathKey new = []
          then Inl (SystemError ''EBUSY: resource busy or locked'')
          else if isFile n \<and> endsWith new ''/''
          then Inl (SystemError ''ENOTDIR: not a directory'')
          else if isFile n \<and> map_of fs (pathKey new) = Some Directory
          then Inl (SystemError ''EISDIR: illegal operation on a directory'')
          else if isDirectory n \<and> map_of fs (pathKey new) \<noteq> None
                  \<and> map_of fs (pathKey new) \<noteq> Some Directory
          then Inl (SystemError ''ENOTDIR: not a directory'')
          else if hasEntries fs new then Inl (SystemError ''ENOTEMPTY: directory not empty'')
          else Inr (map (\<lambda>e. (movedKey (pathKey old) (pathKey new) (fst e), snd e))
                     (AList.delete (pathKey new) fs)))"

text \<open>
  Modelled from the spec: \<^verbatim>\<open>statAsync\<close>, \<^verbatim>\<open>mkdirAsync\<close>, \<^verbatim>\<open>renameAsync\<close>,
  \<^verbatim>\<open>readFile\<close> and \<^verbatim>\<open>writeFile\<close> of \<^verbatim>\<open>util/fs\<close> are not part of the sources. They
  are the promise forms of the \<^verbatim>\<open>fs\<close> calls; \<^verbatim>\<open>statAsync\<close> yields the stats of an
  existing path and \<^verbatim>\<open>null\<close> otherwise (its callers test the result for \<^verbatim>\<open>null\<close>).
\<close>

definition statAsync :: "filesystem \<Rightarrow> string \<Rightarrow> node option" where
  "statAsync fs p = lookupPath fs p"

definition mkdirAsync :: "filesystem \<Rightarrow> string \<Rightarrow> error + filesystem" where
  "mkdirAsync fs p = mkdir fs p"

definition renameAsync :: "filesystem \<Rightarrow> string \<Rightarrow> string \<Rightarrow> error + filesystem" where
  "renameAsync fs old new = rename fs old new"

definition utilReadFile :: "filesystem \<Rightarrow> string \<Rightarrow> error + string" where
  "utilReadFile fs p = readFileSync fs p"

definition writeFile :: "filesystem \<Rightarrow> string \<Rightarrow> string \<Rightarrow> error + filesystem" where
  "writeFile fs p c = writeFileSync fs p c"

text \<open>\<^verbatim>\<open>filepath.replace(/\/$/, '')\<close>: one trailing separator is removed.\<close>

definition stripTrailingSlash :: "string \<Rightarrow> string" where
  "stripTrailingSlash p = (if p \<noteq> [] \<and> last p = CHR ''/'' then butlast p else p)"

section \<open>Documents, configuration and the workspace\<close>

text \<open>
  A \<^verbatim>\<open>Document\<close> (class \<^verbatim>\<open>model/document\<close>, not part of the sources) is the shadow
  of a loaded buffer. The record holds the properties the workspace reads.
\<close>

record document =
  bufnr :: nat
  uri :: string
  version :: int
  content :: string
  buftype :: string
  schema :: string

record textEdit =
  startLine :: nat
  startCharacter :: nat
  endLine :: nat
  endCharacter :: nat
  newText :: string

datatype json =
    JNull | JBool bool | JNumber int | JString string
  | JArray "json list" | JObject "(string \<times> json) list"

text \<open>
  The layer stack held by a \<^verbatim>\<open>Configurations\<close> object: the three layers read from
  the configuration files and the folder fragments attached so far.
\<close>

record configurations =
  defaults :: json
  user :: json
  workspaceLayer :: json
  foldConfigurations :: "(string \<times> json) list"

record workspaceFolder =
  folderUri :: string
  folderName :: string

datatype msgType = MsgError | MsgWarning | MsgMore

text \<open>
  What leaves the workspace, in the order it happens: a message echoed in the editor,
  an editor command, a buffer renamed, the cursor restored, a document detached from its
  buffer, and the events fired on the workspace's emitters. The configuration event
  carries the closure \<^verbatim>\<open>affectsConfiguration\<close>, which captures the previous
  \<^verbatim>\<open>Configurations\<close> object.
\<close>

datatype event =
    DidOpenTextDocument document
  | DidCloseTextDocument document
  | DidChangeWorkspaceFolder "workspaceFolder option"
  | DidChangeConfiguration configurations

datatype effect =
    Echo msgType string
  | Command string
  | SetName nat string
  | SetPos
  | Detach document
  | Fire event

record workspace =
  curBufnr :: "nat option"
  cwd :: string
  root :: string
  blocking :: bool
  initialized :: bool
  buffers :: "(nat \<times> document) list"
  creating :: "nat set"
  configFiles :: "string list"
  wconfigurations :: configurations
  disk :: filesystem
  trace :: "effect list"

text \<open>
  The answers of the editor (over RPC, taken not to fail), of the operating system and
  of the libraries and classes that are not part of the sources. Every function of the
  model takes them as a parameter, so a theorem holds whatever they are.
\<close>

record env =
  uriScheme :: "string \<Rightarrow> string"
  uriFsPath :: "string \<Rightarrow> string"
  uriFile :: "string \<Rightarrow> string"
  homedir :: string
  pluginRoot :: string
  vimconfig :: string
  pathJoin :: "string \<Rightarrow> string \<Rightarrow> string"
  pathDirname :: "string \<Rightarrow> string"
  pathBasename :: "string \<Rightarrow> string"
  pathRelative :: "string \<Rightarrow> string \<Rightarrow> string"
  pathIsAbsolute :: "string \<Rightarrow> bool"
  findUp :: "filesystem \<Rightarrow> string \<Rightarrow> string \<Rightarrow> string option"
  utilResolveRoot :: "filesystem \<Rightarrow> string \<Rightarrow> string list \<Rightarrow> string \<Rightarrow> string option"
  isSupportedScheme :: "string \<Rightarrow> bool"
  roots :: "string list"
  bufloaded :: "nat \<Rightarrow> bool"
  currentBuffer :: nat
  fileencoding :: string
  promptChange :: "nat \<Rightarrow> int"
  fnameescape :: "string \<Rightarrow> string"
  documentInit :: "nat \<Rightarrow> error + document option"
  documentApplyEdits :: "document \<Rightarrow> textEdit list \<Rightarrow> document"
  documentForceSync :: "document \<Rightarrow> document"
  applyTextEdits :: "string \<Rightarrow> textEdit list \<Rightarrow> error + string"
  parseContentFromFile :: "filesystem \<Rightarrow> string \<Rightarrow> json"
  addFolderFile :: "filesystem \<Rightarrow> configurations \<Rightarrow> string \<Rightarrow> configurations"
  getConfiguration :: "configurations \<Rightarrow> string \<Rightarrow> string option \<Rightarrow> json"
  inspectWorkspaceValue :: "configurations \<Rightarrow> string \<Rightarrow> string option \<Rightarrow> string \<Rightarrow> string option"

section \<open>Messages and the document registry\<close>

text \<open>
  \<^verbatim>\<open>showMessage(msg, identify = 'more')\<close>: nothing is echoed while a prompt of
  \<^verbatim>\<open>showQuickpick\<close> or \<^verbatim>\<open>showPrompt\<close> is open (\<^verbatim>\<open>_blocking\<close>).
\<close>

definition showMessage :: "workspace \<Rightarrow> string \<Rightarrow> msgType \<Rightarrow> workspace" where
  "showMessage s msg identify =
     (if blocking s then s else s\<lparr>trace := trace s @ [Echo identify msg]\<rparr>)"

text \<open>
  \<^verbatim>\<open>getDocument(uri: number | string)\<close>: by buffer number the entry of the map, by
  URI the first registered document with that URI.
\<close>

fun getDocument :: "workspace \<Rightarrow> nat + string \<Rightarrow> document option" where
  "getDocument s (Inl n) = map_of (buffers s) n"
| "getDocument s (Inr u) = find (\<lambda>d. uri d = u) (map snd (buffers s))"

text \<open>
  \<^verbatim>\<open>getFileEncoding\<close>: the buffer's encoding, \<^verbatim>\<open>utf-8\<close> when it is empty. The
  callers hand it to the \<^verbatim>\<open>fs\<close> calls; file contents are strings in the model, so
  it does not show in what they read or write.
\<close>

definition getFileEncoding :: "env \<Rightarrow> string" where
  "getFileEncoding e = (if fileencoding e \<noteq> [] then fileencoding e else ''utf-8'')"

definition getbufname :: "env \<Rightarrow> workspace \<Rightarrow> string \<Rightarrow> string" where
  "getbufname e s filepath =
     fnameescape e (if startsWith filepath (cwd s) then pathRelative e (cwd s) filepath
                    else filepath)"

section \<open>Buffer life cycle, root and configuration\<close>

text \<open>
  \<^verbatim>\<open>onBufUnload(bufnr)\<close>: a registered document is removed from the map, detached and
  reported closed; nothing happens for an unknown buffer.
\<close>

definition onBufUnload :: "workspace \<Rightarrow> nat \<Rightarrow> workspace" where
  "onBufUnload s n =
     (case map_of (buffers s) n of
        None \<Rightarrow> s
      | Some doc \<Rightarrow>
          s\<lparr>buffers := AList.delete n (buffers s),
            trace := trace s @ [Detach doc, Fire (DidCloseTextDocument doc)]\<rparr>)"

text \<open>
  \<^verbatim>\<open>loadConfigurations()\<close> on a constructed workspace (\<^verbatim>\<open>this._configurations\<close> is
  set, so the default layer is kept), outside the test harness. \<open>vimconfig\<close> is the
  directory \<^verbatim>\<open>process.env.VIMCONFIG || path.join(os.homedir(), '.vim')\<close>. Parse errors
  go to the quickfix list of the editor and are not part of the model.
\<close>

record configurationData =
  dataDefaults :: json
  dataUser :: json
  dataWorkspace :: json

definition CONFIG_FILE_NAME :: string where
  "CONFIG_FILE_NAME = ''coc-settings.json''"

text \<open>
  A string that may be \<^verbatim>\<open>null\<close> or \<^verbatim>\<open>undefined\<close> is a \<open>string option\<close>; it is
  truthy when it is a non-empty string. \<open>orElse a b\<close> is \<^verbatim>\<open>a || b\<close>, and a test
  \<^verbatim>\<open>if (a && ...)\<close> of such a string reads \<open>orElse a [] \<noteq> []\<close>.
\<close>

definition orElse :: "string option \<Rightarrow> string \<Rightarrow> string" where
  "orElse v d = (case v of None \<Rightarrow> d | Some x \<Rightarrow> if x \<noteq> [] then x else d)"

definition loadConfigurations :: "env \<Rightarrow> workspace \<Rightarrow> configurationData \<times> workspace" where
  "loadConfigurations e s =
     (let file = pathJoin e (pluginRoot e) ''settings.json'';
          s1 = s\<lparr>configFiles := configFiles s @ [file]\<rparr>;
          defaultConfig = defaults (wconfigurations s1);
          home = vimconfig e;
          file2 = pathJoin e home CONFIG_FILE_NAME;
          s2 = s1\<lparr>configFiles := configFiles s1 @ [file2]\<rparr>;
          userConfig = parseContentFromFile e (disk s2) file2;
          folder = orElse (findUp e (disk s2) ''.vim'' (root s2)) []
      in if folder \<noteq> [] \<and> folder \<noteq> home
         then (let file3 = pathJoin e folder CONFIG_FILE_NAME
               in (\<lparr>dataDefaults = defaultConfig, dataUser = userConfig,
                    dataWorkspace = parseContentFromFile e (disk s2) file3\<rparr>,
                   s2\<lparr>configFiles := configFiles s2 @ [file3]\<rparr>))
         else (\<lparr>dataDefaults = defaultConfig, dataUser = userConfig,
                dataWorkspace = JObject []\<rparr>, s2))"

text \<open>\<^verbatim>\<open>new Configurations(config, shape, foldConfigurations)\<close>.\<close>

definition newConfigurations ::
    "configurationData \<Rightarrow> (string \<times> json) list \<Rightarrow> configurations" where
  "newConfigurations d folds =
     \<lparr>defaults = dataDefaults d, user = dataUser d, workspaceLayer = dataWorkspace d,
      foldConfigurations = folds\<rparr>"

text \<open>
  \<^verbatim>\<open>onConfigurationChange()\<close>: the layer stack is rebuilt from the files, the folder
  fragments of the previous stack are kept, and the change event is fired with the
  previous \<^verbatim>\<open>Configurations\<close> object captured by its predicate.
\<close>

definition onConfigurationChange :: "env \<Rightarrow> workspace \<Rightarrow> workspace" where
  "onConfigurationChange e s =
     (let prev = wconfigurations s;
          (config, s1) = loadConfigurations e s;
          s2 = s1\<lparr>wconfigurations := newConfigurations config (foldConfigurations prev)\<rparr>
      in s2\<lparr>trace := trace s2 @ [Fire (DidChangeConfiguration prev)]\<rparr>)"

text \<open>
  Modelled from the spec: \<^verbatim>\<open>equals\<close> of \<^verbatim>\<open>util/object\<close> is not part of the sources;
  the spec has the predicate computed "by structurally diffing old vs. new merged value",
  so \<open>equals\<close> is structural equality of the two values.
\<close>

definition equals :: "json \<Rightarrow> json \<Rightarrow> bool" where
  "equals a b = (a = b)"

text \<open>
  The predicate of the event fired by \<^verbatim>\<open>onConfigurationChange\<close>: \<open>prev\<close> is the
  captured object, and \<^verbatim>\<open>this._configurations\<close> is read from the workspace when the
  predicate is called.
\<close>

definition affectsConfiguration ::
    "env \<Rightarrow> configurations \<Rightarrow> workspace \<Rightarrow> string \<Rightarrow> string option \<Rightarrow> bool" where
  "affectsConfiguration e prev s section resource =
     (let a = getConfiguration e prev section resource;
          b = getConfiguration e (wconfigurations s) section resource
      in \<not> equals a b)"

text \<open>
  \<^verbatim>\<open>resolveRoot(uri)\<close>: \<open>None\<close> is \<^verbatim>\<open>undefined\<close>, returned when the workspace is
  initialized, the file lies under the current root and the root is not the home
  directory. \<^verbatim>\<open>resolveRoot\<close> of \<^verbatim>\<open>util/fs\<close> is a parameter.
\<close>

definition resolveRoot :: "env \<Rightarrow> workspace \<Rightarrow> string \<Rightarrow> string option" where
  "resolveRoot e s u =
     (let dir = pathDirname e (uriFsPath e u)
      in if \<not> initialized s \<or> \<not> startsWith dir (root s) \<or> root s = homedir e
         then (let files = (if roots e \<noteq> []
                            then map (\<lambda>r. if endsWith r ''/'' then butlast r else r) (roots e)
                            else [''.vim'', ''.git'', ''.hg'', ''.projections.json''])
               in Some (orElse (utilResolveRoot e (disk s) dir files (homedir e)) (cwd s)))
         else None)"

text \<open>The getters \<^verbatim>\<open>uri\<close>, \<^verbatim>\<open>rootPath\<close> and \<^verbatim>\<open>workspaceFolder\<close>.\<close>

definition uri_getter :: "workspace \<Rightarrow> string option" where
  "uri_getter s =
     (case curBufnr s of
        None \<Rightarrow> None
      | Some n \<Rightarrow>
          if n = 0 then None
          else (case getDocument s (Inl n) of
                  None \<Rightarrow> None
                | Some d \<Rightarrow> if schema d = ''file'' then Some (uri d) else None))"

definition rootPath :: "env \<Rightarrow> workspace \<Rightarrow> string" where
  "rootPath e s =
     (let rootPath0 = orElse (inspectWorkspaceValue e (wconfigurations s) ''coc.preferences''
                                (uri_getter s) ''rootPath'') [];
          rootPath1 =
            (if rootPath0 \<noteq> [] \<and> \<not> pathIsAbsolute e rootPath0
             then (let dir = orElse (findUp e (disk s) ''.vim'' (root s)) []
                   in if dir \<noteq> [] then pathJoin e dir rootPath0 else rootPath0)
             else rootPath0)
      in if rootPath1 \<noteq> [] then rootPath1 else root s)"

definition workspaceFolder :: "env \<Rightarrow> workspace \<Rightarrow> workspaceFolder option" where
  "workspaceFolder e s =
     (let rp = rootPath e s
      in if rp = homedir e then None
         else Some \<lparr>folderUri = uriFile e rp, folderName = pathBasename e rp\<rparr>)"

text \<open>
  \<^verbatim>\<open>onBufCreate(buf)\<close> is an \<^verbatim>\<open>async\<close> method: at every \<^verbatim>\<open>await\<close> it is
  suspended, and other handlers, or other calls of \<^verbatim>\<open>onBufCreate\<close>, run before it
  is resumed. \<^verbatim>\<open>attach()\<close> starts one call for every buffer and awaits them with
  \<^verbatim>\<open>Promise.all\<close>, so calls do overlap. A \<open>task\<close> is a call between two
  segments, with the local variables that its next segment reads:
  \<^item> \<open>Called\<close>: the method was called and nothing has run;
  \<^item> \<open>AtBufloaded\<close>: suspended at \<^verbatim>\<open>await this.nvim.call('bufloaded', buffer.id)\<close>;
  \<^item> \<open>AtUnload\<close>: suspended in \<^verbatim>\<open>await events.fire('BufUnload', [buffer.id])\<close>, where
    the handler \<^verbatim>\<open>onBufUnload\<close>, which \<^verbatim>\<open>init\<close> registers for the event, has removed
    the old document from the map and awaits \<^verbatim>\<open>doc.detach()\<close>;
  \<^item> \<open>AtInit\<close>: suspended at \<^verbatim>\<open>await document.init(this.nvim)\<close>;
  \<^item> \<open>AtFindUp\<close>: suspended at \<^verbatim>\<open>await findUp('.vim', { cwd: root })\<close>, after the test
    \<^verbatim>\<open>root && this._root !== root\<close> has passed;
  \<^item> \<open>AtStat\<close>: suspended at \<^verbatim>\<open>await statAsync(file)\<close>;
  \<^item> \<open>Done\<close>: returned.
  The pending timer of the debounced recheck, which the first statement clears, is not
  part of the state. \<open>documentInit\<close> stands for \<^verbatim>\<open>new Document(...)\<close> followed by
  \<^verbatim>\<open>document.init\<close>: it raises, or the document is not created (\<open>None\<close>), or it
  is.
\<close>

datatype task =
    Called nat
  | AtBufloaded nat
  | AtUnload nat document
  | AtInit nat
  | AtFindUp nat document string
  | AtStat nat document string string
  | Done

text \<open>
  The last statements of \<^verbatim>\<open>onBufCreate\<close>: the folder's configuration file is
  attached when it is a file; the root is stored, the configuration reloaded and the
  folder event fired; the document is reported open.
\<close>

definition attachFolderFile :: "env \<Rightarrow> workspace \<Rightarrow> string \<Rightarrow> workspace" where
  "attachFolderFile e s file =
     (case statAsync (disk s) file of
        None \<Rightarrow> s
      | Some st \<Rightarrow>
          if isFile st
          then s\<lparr>wconfigurations := addFolderFile e (disk s) (wconfigurations s) file\<rparr>
          else s)"

definition storeRoot :: "env \<Rightarrow> workspace \<Rightarrow> string \<Rightarrow> workspace" where
  "storeRoot e s r =
     (let s2 = s\<lparr>root := r\<rparr>;
          s3 = onConfigurationChange e s2
      in s3\<lparr>trace := trace s3 @ [Fire (DidChangeWorkspaceFolder (workspaceFolder e s3))]\<rparr>)"

definition opened :: "workspace \<Rightarrow> document \<Rightarrow> workspace" where
  "opened s doc = s\<lparr>trace := trace s @ [Fire (DidOpenTextDocument doc)]\<rparr>"

text \<open>
  \<open>resume e s t\<close> runs the next segment of the call \<open>t\<close> on the workspace \<open>s\<close>, up
  to the next \<^verbatim>\<open>await\<close> or to the return. What was awaited is read when the call
  is resumed.
\<close>

fun resume :: "env \<Rightarrow> workspace \<Rightarrow> task \<Rightarrow> workspace \<times> task" where
  "resume e s (Called buf) =
     (if buf \<in> creating s then (s, Done) else (s, AtBufloaded buf))"
| "resume e s (AtBufloaded buf) =
     (if \<not> bufloaded e buf then (s, Done)
      else
        (let s1 = s\<lparr>curBufnr := Some buf, creating := insert buf (creating s)\<rparr>
         in case getDocument s1 (Inl buf) of
              Some old \<Rightarrow>
                (s1\<lparr>buffers := AList.delete buf (buffers s1),
                    trace := trace s1 @ [Detach old]\<rparr>,
                 AtUnload buf old)
            | None \<Rightarrow> (s1, AtInit buf)))"
| "resume e s (AtUnload buf old) =
     (s\<lparr>trace := trace s @ [Fire (DidCloseTextDocument old)]\<rparr>, AtInit buf)"
| "resume e s (AtInit buf) =
     (case documentInit e buf of
        Inl err \<Rightarrow> (s\<lparr>creating := creating s - {buf}\<rparr>, Done)
      | Inr None \<Rightarrow> (s\<lparr>creating := creating s - {buf}\<rparr>, Done)
      | Inr (Some doc) \<Rightarrow>
          (let s3 = s\<lparr>buffers := AList.update buf doc (buffers s)\<rparr>;
               s4 = s3\<lparr>creating := creating s3 - {buf}\<rparr>
           in if buftype doc = [] \<and> schema doc = ''file''
              then (case resolveRoot e s4 (uri doc) of
                      None \<Rightarrow> (opened s4 doc, Done)
                    | Some r \<Rightarrow>
                        if r \<noteq> [] \<and> root s4 \<noteq> r then (s4, AtFindUp buf doc r)
                        else (opened s4 doc, Done))
              else (opened s4 doc, Done)))"
| "resume e s (AtFindUp buf doc r) =
     (let folder = orElse (findUp e (disk s) ''.vim'' r) []
      in if folder \<noteq> [] \<and> folder \<noteq> homedir e
         then (s, AtStat buf doc r (pathJoin e folder CONFIG_FILE_NAME))
         else (opened (storeRoot e s r) doc, Done))"
| "resume e s (AtStat buf doc r file) =
     (opened (storeRoot e (attachFolderFile e s file) r) doc, Done)"
| "resume e s Done = (s, Done)"

text \<open>
  A call that runs with nothing in between: its segments one after the other. A call
  has at most six segments, so six resumptions bring it to its return
  (\<open>onBufCreate_returns\<close> below); \<open>onBufCreate e s buf\<close> is the workspace it leaves.
  This is the call as one of a sequence of operations.
\<close>

fun complete :: "nat \<Rightarrow> env \<Rightarrow> workspace \<Rightarrow> task \<Rightarrow> workspace \<times> task" where
  "complete 0 e s t = (s, t)"
| "complete (Suc n) e s t = complete n e (fst (resume e s t)) (snd (resume e s t))"

definition onBufCreate :: "env \<Rightarrow> workspace \<Rightarrow> nat \<Rightarrow> workspace" where
  "onBufCreate e s buf = fst (complete 6 e s (Called buf))"

text \<open>
  Calls that overlap: \<open>interleave e s ts sched\<close> resumes the calls \<open>ts\<close> in the order
  \<open>sched\<close> gives (the position of the call to resume next; a position that names no
  call is skipped). \<^verbatim>\<open>buffers.map(buf => this.onBufCreate(buf))\<close> in \<^verbatim>\<open>attach()\<close>
  calls the method for each buffer in turn, which runs the first segment of each, and
  \<^verbatim>\<open>Promise.all\<close> then awaits the calls while they are resumed as their awaited
  results arrive.
\<close>

fun interleave ::
    "env \<Rightarrow> workspace \<Rightarrow> task list \<Rightarrow> nat list \<Rightarrow> workspace \<times> task list" where
  "interleave e s ts [] = (s, ts)"
| "interleave e s ts (i # sched) =
     (if i < length ts
      then interleave e (fst (resume e s (ts ! i))) (ts[i := snd (resume e s (ts ! i))]) sched
      else interleave e s ts sched)"

fun invokeAll :: "env \<Rightarrow> workspace \<Rightarrow> nat list \<Rightarrow> workspace \<times> task list" where
  "invokeAll e s [] = (s, [])"
| "invokeAll e s (buf # bufs) =
     (fst (invokeAll e (fst (resume e s (Called buf))) bufs),
      snd (resume e s (Called buf)) # snd (invokeAll e (fst (resume e s (Called buf))) bufs))"

definition attachBuffers ::
    "env \<Rightarrow> workspace \<Rightarrow> nat list \<Rightarrow> nat list \<Rightarrow> workspace \<times> task list" where
  "attachBuffers e s bufs sched =
     interleave e (fst (invokeAll e s bufs)) (snd (invokeAll e s bufs)) sched"

text \<open>
  \<^verbatim>\<open>_checkBuffer()\<close>, the body of the debounced recheck: the current buffer is
  registered when it has no document.
\<close>

definition checkBuffer :: "env \<Rightarrow> workspace \<Rightarrow> workspace" where
  "checkBuffer e s =
     (let n = currentBuffer e;
          s1 = s\<lparr>curBufnr := Some n\<rparr>
      in case getDocument s1 (Inl n) of
           None \<Rightarrow> onBufCreate e s1 n
         | Some doc \<Rightarrow> s1)"

section \<open>File operations\<close>

text \<open>
  The option objects of the protocol. A flag that is absent (\<^verbatim>\<open>undefined\<close>) reads as
  \<^verbatim>\<open>false\<close> in every test the code makes, and an absent option object is \<^verbatim>\<open>{}\<close>.
  \<^verbatim>\<open>RenameFileOptions\<close> has the fields of \<^verbatim>\<open>CreateFileOptions\<close>.
\<close>

record createFileOptions =
  overwrite :: bool
  ignoreIfExists :: bool

type_synonym renameFileOptions = createFileOptions

record deleteFileOptions =
  recursive :: bool
  ignoreIfNotExists :: bool

text \<open>
  \<^verbatim>\<open>createFile(filepath, opts)\<close>. \<^verbatim>\<open>fs.writeFileSync\<close> stands outside any
  \<^verbatim>\<open>try\<close>, so its error is the error of the call.
\<close>

definition createFile ::
    "env \<Rightarrow> workspace \<Rightarrow> string \<Rightarrow> createFileOptions \<Rightarrow> (error + unit) \<times> workspace" where
  "createFile e s filepath opts =
     (let stat = statAsync (disk s) filepath
      in if stat \<noteq> None \<and> \<not> overwrite opts \<and> \<not> ignoreIfExists opts
         then (Inr (), showMessage s (filepath @ '' already exists!'') MsgError)
         else if stat = None \<or> overwrite opts
         then (if endsWith filepath ''/''
               then (case mkdirAsync (disk s) filepath of
                       Inl err \<Rightarrow>
                         (Inr (), showMessage s
                            (''Can't create '' @ filepath @ '': '' @ message err) MsgError)
                     | Inr d \<Rightarrow> (Inr (), s\<lparr>disk := d\<rparr>))
               else (let u = uriFile e filepath;
                         doc = getDocument s (Inr u)
                     in if doc \<noteq> None then (Inr (), s)
                        else (case writeFileSync (disk s) filepath [] of
                                Inl err \<Rightarrow> (Inl err, s)
                              | Inr d \<Rightarrow>
                                  (let bufname = (if startsWith filepath (cwd s)
                                                  then pathRelative e (cwd s) filepath
                                                  else filepath)
                                   in (Inr (), s\<lparr>disk := d,
                                                 trace := trace s @
                                                   [Command (''argadd '' @ bufname)]\<rparr>)))))
         else (Inr (), s))"

text \<open>
  \<^verbatim>\<open>renameFile(oldPath, newPath, opts)\<close>: everything after the first test runs
  inside \<^verbatim>\<open>try\<close>, so the call does not raise.
\<close>

definition renameFile ::
    "env \<Rightarrow> workspace \<Rightarrow> string \<Rightarrow> string \<Rightarrow> renameFileOptions \<Rightarrow> workspace" where
  "renameFile e s oldPath newPath opts =
     (let stat = statAsync (disk s) newPath
      in if stat \<noteq> None \<and> \<not> overwrite opts \<and> \<not> ignoreIfExists opts
         then showMessage s (newPath @ '' already exists'') MsgError
         else if stat = None \<or> overwrite opts
         then (case renameAsync (disk s) oldPath newPath of
                 Inl err \<Rightarrow> showMessage s (''Rename error '' @ message err) MsgError
               | Inr d \<Rightarrow>
                   (let s1 = s\<lparr>disk := d\<rparr>;
                        u = uriFile e oldPath
                    in case getDocument s1 (Inr u) of
                         None \<Rightarrow> s1
                       | Some doc \<Rightarrow>
                           (let newPath1 = (if startsWith newPath (cwd s1)
                                            then pathRelative e (cwd s1) newPath
                                            else newPath);
                                s2 = s1\<lparr>trace := trace s1 @ [SetName (bufnr doc) newPath1]\<rparr>
                            in onBufCreate e s2 (bufnr doc))))
         else s)"

text \<open>
  \<^verbatim>\<open>deleteFile(filepath, opts)\<close>. The statement that computes \<^verbatim>\<open>isDir\<close> calls
  \<^verbatim>\<open>stat.isDirectory()\<close> before \<^verbatim>\<open>stat\<close> is tested, so with \<^verbatim>\<open>stat\<close> being
  \<^verbatim>\<open>null\<close> it raises a \<^verbatim>\<open>TypeError\<close>; the tests of \<^verbatim>\<open>stat\<close> that follow are
  kept as the source has them. The file is removed under the path as given, the stats
  are those of the path without one trailing separator.
\<close>

definition deleteFile ::
    "env \<Rightarrow> workspace \<Rightarrow> string \<Rightarrow> deleteFileOptions \<Rightarrow> (error + unit) \<times> workspace" where
  "deleteFile e s filepath opts =
     (let stat = statAsync (disk s) (stripTrailingSlash filepath)
      in case stat of
           None \<Rightarrow> (Inl (TypeError ''Cannot read property 'isDirectory' of null''), s)
         | Some st \<Rightarrow>
             (let isDir = (isDirectory st \<or> endsWith filepath ''/'')
              in if stat = None \<and> \<not> ignoreIfNotExists opts
                 then (Inr (), showMessage s (filepath @ '' not exists'') MsgError)
                 else if stat = None then (Inr (), s)
                 else if isDir \<and> \<not> recursive opts
                 then (Inr (), showMessage s
                         ''Can't remove directory, recursive not set'' MsgError)
                 else (case (if isDir then rmdir (disk s) filepath
                             else unlink (disk s) filepath) of
                         Inl err \<Rightarrow>
                           (Inr (), showMessage s
                              (''Error on delete '' @ filepath @ '': '' @ message err)
                              MsgError)
                       | Inr d \<Rightarrow>
                           (let s1 = s\<lparr>disk := d\<rparr>
                            in if \<not> isDir
                               then (case getDocument s1 (Inr (uriFile e filepath)) of
                                       None \<Rightarrow> (Inr (), s1)
                                     | Some doc \<Rightarrow>
                                         (Inr (), s1\<lparr>trace := trace s1 @
                                            [Command (''bdelete '' @ showNat (bufnr doc))]\<rparr>))
                               else (Inr (), s1)))))"

text \<open>
  \<^verbatim>\<open>readFile(uri)\<close>: the content of the registered document after a forced sync,
  the empty string for a URI that is not a file, the file's content otherwise.
\<close>

fun mutateDocument ::
    "(nat \<times> document) list \<Rightarrow> string \<Rightarrow> (document \<Rightarrow> document) \<Rightarrow> (nat \<times> document) list" where
  "mutateDocument [] u f = []"
| "mutateDocument (b # bs) u f =
     (if uri (snd b) = u then (fst b, f (snd b)) # bs else b # mutateDocument bs u f)"

definition readFile :: "env \<Rightarrow> workspace \<Rightarrow> string \<Rightarrow> (error + string) \<times> workspace" where
  "readFile e s u =
     (case getDocument s (Inr u) of
        Some doc \<Rightarrow>
          (Inr (content (documentForceSync e doc)),
           s\<lparr>buffers := mutateDocument (buffers s) u (documentForceSync e)\<rparr>)
      | None \<Rightarrow>
          if uriScheme e u \<noteq> ''file'' then (Inr [], s)
          else (utilReadFile (disk s) (uriFsPath e u), s))"

section \<open>Workspace edits\<close>

text \<open>
  A \<^verbatim>\<open>WorkspaceEdit\<close>. The version of a text document edit is a number or
  \<^verbatim>\<open>null\<close>. \<^verbatim>\<open>documentChanges\<close> is typed \<^verbatim>\<open>any[] | null\<close> by the validation:
  it may be absent, something that is not an array, or an array whose elements are the
  four operations or anything else. \<^verbatim>\<open>changes\<close> is an object from URIs to edits, read
  through \<^verbatim>\<open>Object.keys\<close> in insertion order.
\<close>

datatype change =
    TextDocumentEdit string "int option" "textEdit list"
  | CreateFile string createFileOptions
  | RenameFile string string renameFileOptions
  | DeleteFile string deleteFileOptions
  | Unsupported string

datatype documentChangesValue = Absent | NotAnArray | Changes "change list"

record workspaceEdit =
  changes :: "(string \<times> textEdit list) list option"
  documentChanges :: documentChangesValue

text \<open>The truth value of a version: \<^verbatim>\<open>null\<close> and \<^verbatim>\<open>0\<close> are falsy.\<close>

definition versionTruthy :: "int option \<Rightarrow> bool" where
  "versionTruthy v = (case v of None \<Rightarrow> False | Some n \<Rightarrow> n \<noteq> 0)"

text \<open>
  One round of the loop of \<^verbatim>\<open>validteDocumentChanges\<close>: \<open>Inr True\<close> goes on to the
  next element, \<open>Inr False\<close> is \<^verbatim>\<open>return false\<close>. In the first branch
  \<^verbatim>\<open>doc.version\<close> is read whether or not a document was found.
\<close>

definition validteChange ::
    "env \<Rightarrow> workspace \<Rightarrow> change \<Rightarrow> (error + bool) \<times> workspace" where
  "validteChange e s c =
     (case c of
        TextDocumentEdit u v edits \<Rightarrow>
          (let doc = getDocument s (Inr u)
           in if versionTruthy v \<and> doc = None
              then (Inr False, showMessage s (u @ '' not opened.'') MsgError)
              else (case doc of
                      None \<Rightarrow> (Inl (TypeError ''Cannot read property 'version' of null''), s)
                    | Some d \<Rightarrow>
                        if Some (version d) \<noteq> v
                        then (Inr False,
                              showMessage s (u @ '' changed before apply edit'') MsgError)
                        else if v = None
                        then (if \<not> startsWith u ''file''
                              then (Inr False,
                                    showMessage s (''Can't apply edits to '' @ u @ ''.'')
                                      MsgError)
                              else if \<not> existsSync (disk s) (uriFsPath e u)
                              then (Inr False,
                                    showMessage s (''File '' @ u @ '' not exists.'') MsgError)
                              else (Inr True, s))
                        else (Inr True, s)))
      | CreateFile u opts \<Rightarrow>
          if uriScheme e u = ''file''
          then (Inr False, showMessage s (''scheme of '' @ u @ '' should be file'') MsgError)
          else (let ex = existsSync (disk s) (uriFsPath e u)
                in if \<not> ignoreIfExists opts \<and> \<not> overwrite opts \<and> ex
                   then (Inr False, showMessage s (u @ '' already exists.'') MsgMore)
                   else (Inr True, s))
      | RenameFile oldUri newUri opts \<Rightarrow>
          (let ex = existsSync (disk s) (uriFsPath e newUri)
           in if \<not> overwrite opts \<and> \<not> ignoreIfExists opts \<and> ex
              then (Inr False, showMessage s (newUri @ '' already exists.'') MsgMore)
              else (Inr True, s))
      | DeleteFile u opts \<Rightarrow>
          (let ex = existsSync (disk s) (uriFsPath e u)
           in if \<not> ex \<and> \<not> ignoreIfNotExists opts
              then (Inr False, showMessage s (u @ '' not exists.'') MsgMore)
              else (Inr True, s))
      | Unsupported js \<Rightarrow>
          (Inr False,
           showMessage s (''document change '' @ js @ '' not supported'') MsgError))"

fun validteChangeList ::
    "env \<Rightarrow> workspace \<Rightarrow> change list \<Rightarrow> (error + bool) \<times> workspace" where
  "validteChangeList e s [] = (Inr True, s)"
| "validteChangeList e s (c # cs) =
     (case validteChange e s c of
        (Inr True, s1) \<Rightarrow> validteChangeList e s1 cs
      | (Inr False, s1) \<Rightarrow> (Inr False, s1)
      | (Inl err, s1) \<Rightarrow> (Inl err, s1))"

definition validteDocumentChanges ::
    "env \<Rightarrow> workspace \<Rightarrow> documentChangesValue \<Rightarrow> (error + bool) \<times> workspace" where
  "validteDocumentChanges e s dc =
     (case dc of
        Absent \<Rightarrow> (Inr True, s)
      | NotAnArray \<Rightarrow>
          (Inr False, showMessage s ''Invalid documentChanges of WorkspaceEdit'' MsgError)
      | Changes cs \<Rightarrow> validteChangeList e s cs)"

text \<open>\<^verbatim>\<open>validateChanges(changes)\<close>, over the keys of the object.\<close>

fun validateUris :: "env \<Rightarrow> workspace \<Rightarrow> string list \<Rightarrow> bool \<times> workspace" where
  "validateUris e s [] = (True, s)"
| "validateUris e s (u # us) =
     (if \<not> isSupportedScheme e (uriScheme e u)
      then (False, showMessage s (''Schema of '' @ u @ '' not supported.'') MsgError)
      else (let filepath = uriFsPath e u
            in if getDocument s (Inr u) = None \<and> \<not> existsSync (disk s) filepath
               then (False, showMessage s (''File '' @ filepath @ '' not exists'') MsgError)
               else validateUris e s us))"

definition validateChanges ::
    "env \<Rightarrow> workspace \<Rightarrow> (string \<times> textEdit list) list option \<Rightarrow> bool \<times> workspace" where
  "validateChanges e s ch =
     (case ch of None \<Rightarrow> (True, s) | Some cs \<Rightarrow> validateUris e s (map fst cs))"

text \<open>\<^verbatim>\<open>getChangedFiles(edit)\<close>: the files the edit touches that have no document.\<close>

fun nullVersionUris :: "change list \<Rightarrow> string list" where
  "nullVersionUris [] = []"
| "nullVersionUris (TextDocumentEdit u None edits # cs) = u # nullVersionUris cs"
| "nullVersionUris (c # cs) = nullVersionUris cs"

definition getChangedFiles :: "workspace \<Rightarrow> workspaceEdit \<Rightarrow> string list" where
  "getChangedFiles s edit =
     (case changes edit of
        None \<Rightarrow> []
      | Some cs \<Rightarrow>
          filter (\<lambda>u. startsWith u ''file'' \<and> getDocument s (Inr u) = None) (map fst cs))
     @ (case documentChanges edit of Changes cs \<Rightarrow> nullVersionUris cs | other \<Rightarrow> [])"

text \<open>
  An edit of a file that has no document: the content is read, edited and written
  back. Each of the three steps may raise.
\<close>

definition editFile ::
    "env \<Rightarrow> workspace \<Rightarrow> string \<Rightarrow> textEdit list \<Rightarrow> (error + unit) \<times> workspace" where
  "editFile e s u edits =
     (let filepath = uriFsPath e u
      in case readFileSync (disk s) filepath of
           Inl err \<Rightarrow> (Inl err, s)
         | Inr c \<Rightarrow>
             (case applyTextEdits e c edits of
                Inl err \<Rightarrow> (Inl err, s)
              | Inr res \<Rightarrow>
                  (case writeFile (disk s) filepath res of
                     Inl err \<Rightarrow> (Inl err, s)
                   | Inr d \<Rightarrow> (Inr (), s\<lparr>disk := d\<rparr>))))"

text \<open>The loop of \<^verbatim>\<open>applyEdit\<close> over \<^verbatim>\<open>changes\<close>.\<close>

fun applyChanges ::
    "env \<Rightarrow> workspace \<Rightarrow> (string \<times> textEdit list) list \<Rightarrow> (error + unit) \<times> workspace" where
  "applyChanges e s [] = (Inr (), s)"
| "applyChanges e s (c # cs) =
     (case getDocument s (Inr (fst c)) of
        Some document \<Rightarrow>
          applyChanges e
            (s\<lparr>buffers := mutateDocument (buffers s) (fst c)
                            (\<lambda>d. documentApplyEdits e d (snd c))\<rparr>) cs
      | None \<Rightarrow>
          (case editFile e s (fst c) (snd c) of
             (Inl err, s1) \<Rightarrow> (Inl err, s1)
           | (Inr x, s1) \<Rightarrow> applyChanges e s1 cs))"

text \<open>One round of the loop of \<^verbatim>\<open>applyEdit\<close> over \<^verbatim>\<open>documentChanges\<close>.\<close>

definition applyDocumentChange ::
    "env \<Rightarrow> workspace \<Rightarrow> change \<Rightarrow> (error + unit) \<times> workspace" where
  "applyDocumentChange e s c =
     (case c of
        TextDocumentEdit u v edits \<Rightarrow>
          if v \<noteq> None
          then (case getDocument s (Inr u) of
                  None \<Rightarrow> (Inl (TypeError ''Cannot read property 'applyEdits' of null''), s)
                | Some doc \<Rightarrow>
                    (Inr (), s\<lparr>buffers := mutateDocument (buffers s) u
                                            (\<lambda>d. documentApplyEdits e d edits)\<rparr>))
          else editFile e s u edits
      | CreateFile u opts \<Rightarrow> createFile e s (uriFsPath e u) opts
      | RenameFile oldUri newUri opts \<Rightarrow>
          (Inr (), renameFile e s (uriFsPath e oldUri) (uriFsPath e newUri) opts)
      | DeleteFile u opts \<Rightarrow> deleteFile e s (uriFsPath e u) opts
      | Unsupported js \<Rightarrow> (Inr (), s))"

fun applyDocumentChanges ::
    "env \<Rightarrow> workspace \<Rightarrow> change list \<Rightarrow> (error + unit) \<times> workspace" where
  "applyDocumentChanges e s [] = (Inr (), s)"
| "applyDocumentChanges e s (c # cs) =
     (case applyDocumentChange e s c of
        (Inl err, s1) \<Rightarrow> (Inl err, s1)
      | (Inr x, s1) \<Rightarrow> applyDocumentChanges e s1 cs)"

text \<open>
  \<^verbatim>\<open>applyEdit(edit)\<close>: both validations, the prompt for files without a document,
  the two loops, the summary message, the new buffers and the cursor.
\<close>

definition applyEdit ::
    "env \<Rightarrow> workspace \<Rightarrow> workspaceEdit \<Rightarrow> (error + bool) \<times> workspace" where
  "applyEdit e s edit =
     (case validteDocumentChanges e s (documentChanges edit) of
        (Inl err, s1) \<Rightarrow> (Inl err, s1)
      | (Inr False, s1) \<Rightarrow> (Inr False, s1)
      | (Inr True, s1) \<Rightarrow>
          (case validateChanges e s1 (changes edit) of
             (False, s2) \<Rightarrow> (Inr False, s2)
           | (True, s2) \<Rightarrow>
               (let changedFiles = getChangedFiles s2 edit;
                    len = length changedFiles
                in if len > 0 \<and> promptChange e len \<noteq> 1 then (Inr False, s2)
                   else
                     (case applyChanges e s2
                             (case changes edit of None \<Rightarrow> [] | Some cs \<Rightarrow> cs) of
                        (Inl err, s3) \<Rightarrow> (Inl err, s3)
                      | (Inr x, s3) \<Rightarrow>
                          (case (case documentChanges edit of
                                   Changes cs \<Rightarrow>
                                     if cs \<noteq> []
                                     then (case applyDocumentChanges e s3 cs of
                                             (Inl err, s4) \<Rightarrow> (Inl err, s4)
                                           | (Inr y, s4) \<Rightarrow>
                                               (Inr (), showMessage s4
                                                  (showNat (length cs) @ '' documents changed!'')
                                                  MsgMore))
                                     else (Inr (), s3)
                                 | other \<Rightarrow> (Inr (), s3)) of
                             (Inl err, s5) \<Rightarrow> (Inl err, s5)
                           | (Inr z, s5) \<Rightarrow>
                               (let s6 = (if changedFiles \<noteq> []
                                          then s5\<lparr>trace := trace s5 @
                                                 [Command (''argadd '' @ joinWith '' ''
                                                    (map (getbufname e s5) changedFiles))]\<rparr>
                                          else s5)
                                in (Inr True, s6\<lparr>trace := trace s6 @ [SetPos]\<rparr>)))))))"

section \<open>Runs, intermediate states and examples\<close>

text \<open>
  The operations that change the registry, run in sequence; the editor's answers may
  differ from one operation to the next.
\<close>

datatype operation =
    BufCreate nat | BufUnload nat | Recheck | Rename string string renameFileOptions

fun step :: "env \<Rightarrow> workspace \<Rightarrow> operation \<Rightarrow> workspace" where
  "step e s (BufCreate n) = onBufCreate e s n"
| "step e s (BufUnload n) = onBufUnload s n"
| "step e s Recheck = checkBuffer e s"
| "step e s (Rename oldPath newPath opts) = renameFile e s oldPath newPath opts"

fun run :: "workspace \<Rightarrow> (env \<times> operation) list \<Rightarrow> workspace" where
  "run s [] = s"
| "run s (x # xs) = run (step (fst x) s (snd x)) xs"

text \<open>The entries the registry holds for a buffer.\<close>

definition entriesFor :: "workspace \<Rightarrow> nat \<Rightarrow> (nat \<times> document) list" where
  "entriesFor s n = filter (\<lambda>b. fst b = n) (buffers s)"

text \<open>The events that go with a change of root, as they stand in a trace.\<close>

fun isRootEvent :: "effect \<Rightarrow> bool" where
  "isRootEvent (Fire (DidChangeWorkspaceFolder f)) = True"
| "isRootEvent (Fire (DidChangeConfiguration c)) = True"
| "isRootEvent x = False"

definition rootEvents :: "effect list \<Rightarrow> effect list" where
  "rootEvents tr = filter isRootEvent tr"

text \<open>
  Closed forms of a call of \<^verbatim>\<open>onBufCreate\<close> that runs alone, named for the proofs:
  the block that follows a changed root, the workspace after the old document was
  unloaded, the one after the new document was stored, and what follows the unloading.
\<close>

definition changeRoot :: "env \<Rightarrow> workspace \<Rightarrow> string \<Rightarrow> workspace" where
  "changeRoot e s r =
     (let folder = orElse (findUp e (disk s) ''.vim'' r) [];
          s1 = (if folder \<noteq> [] \<and> folder \<noteq> homedir e
                then attachFolderFile e s (pathJoin e folder CONFIG_FILE_NAME)
                else s)
      in storeRoot e s1 r)"

definition unloaded :: "workspace \<Rightarrow> nat \<Rightarrow> workspace" where
  "unloaded s buf =
     (let s1 = s\<lparr>curBufnr := Some buf, creating := insert buf (creating s)\<rparr>
      in if getDocument s1 (Inl buf) \<noteq> None then onBufUnload s1 buf else s1)"

definition beforeRoot :: "workspace \<Rightarrow> nat \<Rightarrow> document \<Rightarrow> workspace" where
  "beforeRoot s buf doc =
     (let s2 = unloaded s buf;
          s3 = s2\<lparr>buffers := AList.update buf doc (buffers s2)\<rparr>
      in s3\<lparr>creating := creating s3 - {buf}\<rparr>)"

definition afterInit :: "env \<Rightarrow> workspace \<Rightarrow> nat \<Rightarrow> workspace" where
  "afterInit e s2 buf =
     (case documentInit e buf of
        Inl err \<Rightarrow> s2\<lparr>creating := creating s2 - {buf}\<rparr>
      | Inr None \<Rightarrow> s2\<lparr>creating := creating s2 - {buf}\<rparr>
      | Inr (Some doc) \<Rightarrow>
          (let s3 = s2\<lparr>buffers := AList.update buf doc (buffers s2)\<rparr>;
               s4 = s3\<lparr>creating := creating s3 - {buf}\<rparr>;
               s5 = (if buftype doc = [] \<and> schema doc = ''file''
                     then (case resolveRoot e s4 (uri doc) of
                             None \<Rightarrow> s4
                           | Some r \<Rightarrow>
                               if r \<noteq> [] \<and> root s4 \<noteq> r then changeRoot e s4 r
                               else s4)
                     else s4)
           in s5\<lparr>trace := trace s5 @ [Fire (DidOpenTextDocument doc)]\<rparr>))"

text \<open>
  A concrete editor and workspace for the examples: every directory is a project root,
  no \<^verbatim>\<open>.vim\<close> folder exists, every buffer is loaded and gets a document; buffer 1
  shows \<^verbatim>\<open>/work/project/main.ts\<close>, the others \<^verbatim>\<open>/work/project/util.ts\<close>.
\<close>

definition exampleDocument :: "nat \<Rightarrow> document" where
  "exampleDocument n =
     \<lparr>bufnr = n,
      uri = (if n = 1 then ''file:///work/project/main.ts''
             else ''file:///work/project/util.ts''),
      version = 1, content = ''let x'', buftype = [], schema = ''file''\<rparr>"

definition exampleConfigurations :: configurations where
  "exampleConfigurations =
     \<lparr>defaults = JObject [], user = JObject [], workspaceLayer = JObject [],
      foldConfigurations = []\<rparr>"

definition exampleFolder :: "workspaceFolder option" where
  "exampleFolder = Some \<lparr>folderUri = ''file:///work/project'', folderName = ''project''\<rparr>"

definition exampleEnv :: env where
  "exampleEnv =
     \<lparr>uriScheme = (\<lambda>u. takeWhile (\<lambda>c. c \<noteq> CHR '':'') u),
      uriFsPath = (\<lambda>u. if startsWith u ''file://'' then drop 7 u else u),
      uriFile = (\<lambda>p. ''file://'' @ p),
      homedir = ''/home/me'',
      pluginRoot = ''/opt/coc'',
      vimconfig = ''/home/me/.vim'',
      pathJoin = (\<lambda>a b. a @ ''/'' @ b),
      pathDirname = (\<lambda>p. rev (drop 1 (dropWhile (\<lambda>c. c \<noteq> CHR ''/'') (rev p)))),
      pathBasename = (\<lambda>p. rev (takeWhile (\<lambda>c. c \<noteq> CHR ''/'') (rev p))),
      pathRelative = (\<lambda>a b. drop (length a + 1) b),
      pathIsAbsolute = (\<lambda>p. startsWith p ''/''),
      findUp = (\<lambda>fs name dir. None),
      utilResolveRoot = (\<lambda>fs dir files home. Some dir),
      isSupportedScheme = (\<lambda>x. x = ''file'' \<or> x = ''untitled''),
      roots = [],
      bufloaded = (\<lambda>n. True),
      currentBuffer = 1,
      fileencoding = [],
      promptChange = (\<lambda>n. 1),
      fnameescape = (\<lambda>p. p),
      documentInit = (\<lambda>n. Inr (Some (exampleDocument n))),
      documentApplyEdits = (\<lambda>d edits. d\<lparr>version := version d + 1\<rparr>),
      documentForceSync = (\<lambda>d. d),
      applyTextEdits = (\<lambda>c edits. Inr c),
      parseContentFromFile = (\<lambda>fs f. JObject []),
      addFolderFile = (\<lambda>fs c f. c),
      getConfiguration = (\<lambda>c section resource. JObject []),
      inspectWorkspaceValue = (\<lambda>c section resource k. None)\<rparr>"

definition exampleWorkspace :: workspace where
  "exampleWorkspace =
     \<lparr>curBufnr = None, cwd = ''/work'', root = ''/work'', blocking = False,
      initialized = False, buffers = [], creating = {}, configFiles = [],
      wconfigurations = exampleConfigurations,
      disk = [(''/tmp/dir'', Directory), (''/tmp/dir/a.txt'', File ''a''),
              (''/tmp/new.txt'', File ''old'')],
      trace = []\<rparr>"

text \<open>The same workspace while a prompt is open, and with a document for buffer 1.\<close>

definition blockedWorkspace :: workspace where
  "blockedWorkspace = exampleWorkspace\<lparr>blocking := True\<rparr>"

definition openWorkspace :: workspace where
  "openWorkspace = exampleWorkspace\<lparr>buffers := [(1, exampleDocument 1)]\<rparr>"

definition noDeleteOptions :: deleteFileOptions where
  "noDeleteOptions = \<lparr>recursive = False, ignoreIfNotExists = False\<rparr>"

definition noCreateOptions :: createFileOptions where
  "noCreateOptions = \<lparr>overwrite = False, ignoreIfExists = False\<rparr>"

definition invalidEdit :: workspaceEdit where
  "invalidEdit = \<lparr>changes = Some [(''http://example.org/a.txt'', [])],
                  documentChanges = Absent\<rparr>"

definition nullVersionEdit :: workspaceEdit where
  "nullVersionEdit =
     \<lparr>changes = None,
      documentChanges = Changes [TextDocumentEdit ''file:///tmp/new.txt'' None []]\<rparr>"

definition exampleRun :: "(env \<times> operation) list" where
  "exampleRun =
     [(exampleEnv, BufCreate 1), (exampleEnv, BufCreate 1), (exampleEnv, Recheck),
      (exampleEnv, BufCreate 2), (exampleEnv, BufUnload 1)]"

section \<open>Paths and messages\<close>

lemma pathKey_snoc_slash: "pathKey (q @ ''/'') = pathKey q"
  by (simp add: pathKey_def)

lemma pathKey_stripTrailingSlash: "pathKey (stripTrailingSlash p) = pathKey p"
proof (cases "p \<noteq> [] \<and> last p = CHR ''/''")
  case True
  then have "p = butlast p @ ''/''"
    by (metis append_butlast_last_id)
  then have "pathKey p = pathKey (butlast p)"
    using pathKey_snoc_slash [of "butlast p"] by simp
  then show ?thesis using True by (simp add: stripTrailingSlash_def)
next
  case False
  then show ?thesis by (auto simp: stripTrailingSlash_def)
qed

lemma stripTrailingSlash_empty: "stripTrailingSlash p = [] \<longleftrightarrow> p = [] \<or> p = ''/''"
proof (cases "p \<noteq> [] \<and> last p = CHR ''/''")
  case True
  then have "p = butlast p @ ''/''"
    by (metis append_butlast_last_id)
  then have "butlast p = [] \<longleftrightarrow> p = ''/''"
    by (metis append_Nil butlast_snoc)
  then show ?thesis using True by (simp add: stripTrailingSlash_def)
next
  case False
  then show ?thesis by (auto simp: stripTrailingSlash_def)
qed

lemma lookupPath_Directory:
  "lookupPath fs p = Some Directory
   \<longleftrightarrow> p \<noteq> [] \<and> (pathKey p = [] \<or> map_of fs (pathKey p) = Some Directory)"
  by (simp add: lookupPath_def split: option.splits node.splits)

text \<open>A directory other than \<^verbatim>\<open>/\<close> is found with or without one trailing separator.\<close>

lemma statAsync_directory_stripped:
  assumes "statAsync fs p = Some Directory" and "p \<noteq> ''/''"
  shows "statAsync fs (stripTrailingSlash p) = Some Directory"
proof -
  have "stripTrailingSlash p \<noteq> []"
    using assms by (simp add: stripTrailingSlash_empty statAsync_def lookupPath_Directory)
  then show ?thesis
    using assms(1)
    by (simp add: statAsync_def lookupPath_Directory pathKey_stripTrailingSlash)
qed

text \<open>The path \<^verbatim>\<open>/\<close> without its separator is the empty path, which names nothing.\<close>

lemma statAsync_root_stripped: "statAsync fs (stripTrailingSlash ''/'') = None"
  by (simp add: statAsync_def lookupPath_def stripTrailingSlash_def)

text \<open>
  A path at which nothing is, written with or without a trailing separator, is not
  found by the stat of the path without its last separator either.
\<close>

lemma missing_path_stripped:
  assumes "map_of fs (pathKey p) = None" and "pathKey p \<noteq> []"
  shows "statAsync fs p = None \<and> statAsync fs (stripTrailingSlash p) = None"
  using assms
  by (simp add: statAsync_def lookupPath_def pathKey_stripTrailingSlash)


lemma showMessage_frame [simp]:
  "disk (showMessage s m k) = disk s"
  "buffers (showMessage s m k) = buffers s"
  "blocking (showMessage s m k) = blocking s"
  by (simp_all add: showMessage_def)

lemma getDocument_showMessage [simp]: "getDocument (showMessage s m k) x = getDocument s x"
  by (cases x) simp_all

section \<open>Validation changes nothing but the messages\<close>

lemma validteChange_frame:
  "buffers (snd (validteChange e s c)) = buffers s \<and> disk (snd (validteChange e s c)) = disk s"
  by (cases c) (simp_all add: validteChange_def Let_def split: option.splits)

lemma validteChange_True:
  "fst (validteChange e s c) = Inr True \<Longrightarrow> snd (validteChange e s c) = s"
  by (cases c) (auto simp: validteChange_def Let_def split: option.splits if_splits)

lemma validteChangeList_frame:
  "buffers (snd (validteChangeList e s cs)) = buffers s \<and>
   disk (snd (validteChangeList e s cs)) = disk s"
proof (induction cs arbitrary: s)
  case Nil
  show ?case by simp
next
  case (Cons c cs)
  obtain r s1 where r: "validteChange e s c = (r, s1)" by (cases "validteChange e s c")
  have f: "buffers s1 = buffers s \<and> disk s1 = disk s"
    using validteChange_frame [of e s c] r by simp
  show ?case
  proof (cases r)
    case (Inl err)
    then show ?thesis using r f by simp
  next
    case (Inr b)
    then show ?thesis using r f Cons.IH [of s1] by (cases b) simp_all
  qed
qed

lemma validteChangeList_True:
  "fst (validteChangeList e s cs) = Inr True \<Longrightarrow> snd (validteChangeList e s cs) = s"
proof (induction cs arbitrary: s)
  case Nil
  show ?case by simp
next
  case (Cons c cs)
  obtain r s1 where r: "validteChange e s c = (r, s1)" by (cases "validteChange e s c")
  show ?case
  proof (cases r)
    case (Inl err)
    then show ?thesis using r Cons.prems by simp
  next
    case (Inr b)
    show ?thesis
    proof (cases b)
      case True
      then have "s1 = s" using validteChange_True [of e s c] r Inr by simp
      then show ?thesis using r Inr True Cons.prems Cons.IH [of s] by simp
    next
      case False
      then show ?thesis using r Inr Cons.prems by simp
    qed
  qed
qed

text \<open>Elements that pass the validation do not change what follows them.\<close>

lemma validteChangeList_append:
  "validteChangeList e s pre = (Inr True, s) \<Longrightarrow>
   validteChangeList e s (pre @ cs) = validteChangeList e s cs"
proof (induction pre)
  case Nil
  show ?case by simp
next
  case (Cons c pre)
  obtain r s1 where r: "validteChange e s c = (r, s1)" by (cases "validteChange e s c")
  show ?case
  proof (cases r)
    case (Inl err)
    then show ?thesis using r Cons.prems by simp
  next
    case (Inr b)
    show ?thesis
    proof (cases b)
      case True
      then have "s1 = s" using validteChange_True [of e s c] r Inr by simp
      then show ?thesis using r Inr True Cons.prems Cons.IH by simp
    next
      case False
      then show ?thesis using r Inr Cons.prems by simp
    qed
  qed
qed

lemma validteDocumentChanges_frame:
  "buffers (snd (validteDocumentChanges e s dc)) = buffers s \<and>
   disk (snd (validteDocumentChanges e s dc)) = disk s"
  by (cases dc) (simp_all add: validteDocumentChanges_def validteChangeList_frame)

lemma validteDocumentChanges_True:
  "fst (validteDocumentChanges e s dc) = Inr True \<Longrightarrow> snd (validteDocumentChanges e s dc) = s"
  by (cases dc) (simp_all add: validteDocumentChanges_def validteChangeList_True)

lemma validateUris_frame:
  "buffers (snd (validateUris e s us)) = buffers s \<and> disk (snd (validateUris e s us)) = disk s"
  by (induction us) (simp_all add: Let_def)

lemma validateChanges_frame:
  "buffers (snd (validateChanges e s ch)) = buffers s \<and>
   disk (snd (validateChanges e s ch)) = disk s"
  by (cases ch) (simp_all add: validateChanges_def validateUris_frame)

text \<open>
  When \<^verbatim>\<open>validteDocumentChanges\<close> raises, \<^verbatim>\<open>applyEdit\<close> raises the same error and
  \<^verbatim>\<open>validateChanges\<close> is not called.
\<close>

lemma applyEdit_validation_raises:
  assumes "fst (validteDocumentChanges e s (documentChanges edit)) = Inl err"
  shows "fst (applyEdit e s edit) = Inl err
         \<and> buffers (snd (applyEdit e s edit)) = buffers s
         \<and> disk (snd (applyEdit e s edit)) = disk s"
proof -
  obtain r s1 where r: "validteDocumentChanges e s (documentChanges edit) = (r, s1)"
    by (cases "validteDocumentChanges e s (documentChanges edit)")
  have "buffers s1 = buffers s \<and> disk s1 = disk s"
    using validteDocumentChanges_frame [of e s "documentChanges edit"] r by simp
  then show ?thesis using assms r by (simp add: applyEdit_def)
qed

section \<open>The cases of onBufCreate\<close>

lemma loadConfigurations_frame:
  "root (snd (loadConfigurations e s)) = root s \<and>
   buffers (snd (loadConfigurations e s)) = buffers s \<and>
   trace (snd (loadConfigurations e s)) = trace s \<and>
   creating (snd (loadConfigurations e s)) = creating s \<and>
   wconfigurations (snd (loadConfigurations e s)) = wconfigurations s"
  by (simp add: loadConfigurations_def Let_def)

lemma onConfigurationChange_frame:
  "root (onConfigurationChange e s) = root s \<and>
   buffers (onConfigurationChange e s) = buffers s \<and>
   creating (onConfigurationChange e s) = creating s \<and>
   trace (onConfigurationChange e s)
     = trace s @ [Fire (DidChangeConfiguration (wconfigurations s))]"
  using loadConfigurations_frame [of e s]
  by (cases "loadConfigurations e s") (simp add: onConfigurationChange_def Let_def)

lemma changeRoot_frame:
  "root (changeRoot e s r) = r \<and>
   buffers (changeRoot e s r) = buffers s \<and>
   creating (changeRoot e s r) = creating s \<and>
   (\<exists>c f. trace (changeRoot e s r)
            = trace s @ [Fire (DidChangeConfiguration c), Fire (DidChangeWorkspaceFolder f)])"
proof -
  have f: "\<And>s1. root (storeRoot e s1 r) = r \<and>
     buffers (storeRoot e s1 r) = buffers s1 \<and>
     creating (storeRoot e s1 r) = creating s1 \<and>
     trace (storeRoot e s1 r)
       = trace s1 @ [Fire (DidChangeConfiguration (wconfigurations s1)),
                     Fire (DidChangeWorkspaceFolder
                             (workspaceFolder e (onConfigurationChange e (s1\<lparr>root := r\<rparr>))))]"
    by (simp add: storeRoot_def Let_def onConfigurationChange_frame)
  have g: "\<And>file. buffers (attachFolderFile e s file) = buffers s \<and>
     creating (attachFolderFile e s file) = creating s \<and>
     trace (attachFolderFile e s file) = trace s"
    by (simp add: attachFolderFile_def split: option.splits)
  show ?thesis
    by (simp add: changeRoot_def Let_def f g)
qed

lemma rootEvents_append: "rootEvents (xs @ ys) = rootEvents xs @ rootEvents ys"
  by (simp add: rootEvents_def)

lemma onBufUnload_frame:
  "root (onBufUnload s n) = root s \<and>
   rootEvents (trace (onBufUnload s n)) = rootEvents (trace s) \<and>
   buffers (onBufUnload s n) = AList.delete n (buffers s)"
  by (simp add: onBufUnload_def rootEvents_def map_of_eq_None_iff AList.delete_id
      split: option.splits)

lemma onBufUnload_fields:
  "initialized (onBufUnload s n) = initialized s \<and> disk (onBufUnload s n) = disk s \<and>
   cwd (onBufUnload s n) = cwd s \<and> creating (onBufUnload s n) = creating s \<and>
   wconfigurations (onBufUnload s n) = wconfigurations s"
  by (simp add: onBufUnload_def split: option.splits)

lemma resolveRoot_frame:
  assumes "initialized s' = initialized s" "root s' = root s" "disk s' = disk s"
    "cwd s' = cwd s"
  shows "resolveRoot e s' u = resolveRoot e s u"
  using assms by (simp add: resolveRoot_def Let_def)

lemma unloaded_fields:
  "root (unloaded s buf) = root s \<and>
   initialized (unloaded s buf) = initialized s \<and>
   disk (unloaded s buf) = disk s \<and>
   cwd (unloaded s buf) = cwd s \<and>
   wconfigurations (unloaded s buf) = wconfigurations s \<and>
   rootEvents (trace (unloaded s buf)) = rootEvents (trace s) \<and>
   buffers (unloaded s buf) = AList.delete buf (buffers s)"
  using onBufUnload_frame [of "s\<lparr>curBufnr := Some buf, creating := insert buf (creating s)\<rparr>" buf]
        onBufUnload_fields [of "s\<lparr>curBufnr := Some buf, creating := insert buf (creating s)\<rparr>" buf]
  by (simp add: unloaded_def Let_def map_of_eq_None_iff AList.delete_id)

lemma unloaded_trace:
  "trace (unloaded s buf)
   = trace s @ (case map_of (buffers s) buf of
                  None \<Rightarrow> []
                | Some old \<Rightarrow> [Detach old, Fire (DidCloseTextDocument old)])"
  by (simp add: unloaded_def Let_def onBufUnload_def split: option.splits)

lemma beforeRoot_fields:
  "root (beforeRoot s buf doc) = root s \<and>
   initialized (beforeRoot s buf doc) = initialized s \<and>
   disk (beforeRoot s buf doc) = disk s \<and>
   cwd (beforeRoot s buf doc) = cwd s \<and>
   wconfigurations (beforeRoot s buf doc) = wconfigurations s \<and>
   rootEvents (trace (beforeRoot s buf doc)) = rootEvents (trace s) \<and>
   buffers (beforeRoot s buf doc) = AList.update buf doc (AList.delete buf (buffers s))"
  using unloaded_fields [of s buf] by (simp add: beforeRoot_def Let_def)

lemma beforeRoot_trace: "trace (beforeRoot s buf doc) = trace (unloaded s buf)"
  by (simp add: beforeRoot_def Let_def)

lemma resolveRoot_beforeRoot:
  "resolveRoot e (beforeRoot s buf doc) u = resolveRoot e s u"
  using beforeRoot_fields [of s buf doc] by (intro resolveRoot_frame) simp_all

text \<open>
  The segments of a call that runs alone, from the last to the first: each lemma gives
  the workspace the call leaves and that it has returned.
\<close>

lemma complete_Done: "complete n e s Done = (s, Done)"
  by (induction n) simp_all

lemma complete_step:
  "resume e s t = (s', t') \<Longrightarrow> complete (Suc n) e s t = complete n e s' t'"
  by simp

lemma stat_stage:
  "complete (Suc n) e s (AtStat buf doc r file)
   = (opened (storeRoot e (attachFolderFile e s file) r) doc, Done)"
proof -
  have r: "resume e s (AtStat buf doc r file)
           = (opened (storeRoot e (attachFolderFile e s file) r) doc, Done)"
    by simp
  show ?thesis by (simp only: complete_step [OF r] complete_Done)
qed

lemma findup_stage:
  "complete (Suc (Suc n)) e s (AtFindUp buf doc r) = (opened (changeRoot e s r) doc, Done)"
proof (cases "orElse (findUp e (disk s) ''.vim'' r) [] \<noteq> []
              \<and> orElse (findUp e (disk s) ''.vim'' r) [] \<noteq> homedir e")
  case True
  let ?file = "pathJoin e (orElse (findUp e (disk s) ''.vim'' r) []) CONFIG_FILE_NAME"
  have r: "resume e s (AtFindUp buf doc r) = (s, AtStat buf doc r ?file)"
    using True by (simp add: Let_def)
  have c: "changeRoot e s r = storeRoot e (attachFolderFile e s ?file) r"
    using True by (simp add: changeRoot_def Let_def)
  show ?thesis by (simp only: complete_step [OF r] stat_stage c)
next
  case False
  have r: "resume e s (AtFindUp buf doc r) = (opened (storeRoot e s r) doc, Done)"
    using False by (auto simp: Let_def)
  have c: "changeRoot e s r = storeRoot e s r"
    using False by (auto simp: changeRoot_def Let_def)
  show ?thesis by (simp only: complete_step [OF r] complete_Done c)
qed

lemma init_stage:
  "complete (Suc (Suc (Suc n))) e s (AtInit buf) = (afterInit e s buf, Done)"
proof (cases "\<exists>doc. documentInit e buf = Inr (Some doc)")
  case False
  then have r: "resume e s (AtInit buf) = (s\<lparr>creating := creating s - {buf}\<rparr>, Done)"
    by (cases "documentInit e buf") (auto split: option.splits)
  have c: "afterInit e s buf = s\<lparr>creating := creating s - {buf}\<rparr>"
    using False by (cases "documentInit e buf") (auto simp: afterInit_def split: option.splits)
  show ?thesis by (simp only: complete_step [OF r] complete_Done c)
next
  case True
  then obtain doc where d: "documentInit e buf = Inr (Some doc)" by blast
  let ?s4 = "s\<lparr>buffers := AList.update buf doc (buffers s),
               creating := creating s - {buf}\<rparr>"
  show ?thesis
  proof (cases "buftype doc = [] \<and> schema doc = ''file'' \<and>
                (\<exists>r. resolveRoot e ?s4 (uri doc) = Some r \<and> r \<noteq> [] \<and> root s \<noteq> r)")
    case True
    then obtain r where r: "buftype doc = []" "schema doc = ''file''"
        "resolveRoot e ?s4 (uri doc) = Some r" "r \<noteq> []" "root s \<noteq> r"
      by blast
    have st: "resume e s (AtInit buf) = (?s4, AtFindUp buf doc r)"
      using d r by (simp add: Let_def)
    have c: "afterInit e s buf = opened (changeRoot e ?s4 r) doc"
      using d r by (simp add: afterInit_def Let_def opened_def)
    show ?thesis by (simp only: complete_step [OF st] findup_stage c)
  next
    case False
    have st: "resume e s (AtInit buf) = (opened ?s4 doc, Done)"
      using d False by (auto simp: Let_def split: option.splits)
    have c: "afterInit e s buf = opened ?s4 doc"
      using d False by (auto simp: afterInit_def Let_def opened_def split: option.splits)
    show ?thesis by (simp only: complete_step [OF st] complete_Done c)
  qed
qed

lemma unload_stage:
  "complete (Suc (Suc (Suc (Suc n)))) e s (AtUnload buf old)
   = (afterInit e (s\<lparr>trace := trace s @ [Fire (DidCloseTextDocument old)]\<rparr>) buf, Done)"
proof -
  have r: "resume e s (AtUnload buf old)
           = (s\<lparr>trace := trace s @ [Fire (DidCloseTextDocument old)]\<rparr>, AtInit buf)"
    by simp
  show ?thesis by (simp only: complete_step [OF r] init_stage)
qed

lemma bufloaded_stage:
  "complete (Suc (Suc (Suc (Suc (Suc n))))) e s (AtBufloaded buf)
   = (if \<not> bufloaded e buf then s else afterInit e (unloaded s buf) buf, Done)"
proof (cases "bufloaded e buf")
  case False
  then have r: "resume e s (AtBufloaded buf) = (s, Done)" by simp
  have c: "(if \<not> bufloaded e buf then s else afterInit e (unloaded s buf) buf) = s"
    using False by simp
  show ?thesis by (simp only: c) (simp only: complete_step [OF r] complete_Done)
next
  case True
  let ?s1 = "s\<lparr>curBufnr := Some buf, creating := insert buf (creating s)\<rparr>"
  have c: "(if \<not> bufloaded e buf then s else afterInit e (unloaded s buf) buf)
           = afterInit e (unloaded s buf) buf"
    using True by simp
  show ?thesis
  proof (cases "map_of (buffers s) buf")
    case None
    have r: "resume e s (AtBufloaded buf) = (?s1, AtInit buf)"
      using True None by (simp add: Let_def)
    have u: "unloaded s buf = ?s1"
      using None by (simp add: unloaded_def Let_def)
    show ?thesis by (simp only: c) (simp only: complete_step [OF r] init_stage u)
  next
    case (Some old)
    let ?s2 = "?s1\<lparr>buffers := AList.delete buf (buffers ?s1),
                   trace := trace ?s1 @ [Detach old]\<rparr>"
    have r: "resume e s (AtBufloaded buf) = (?s2, AtUnload buf old)"
      using True Some by (simp add: Let_def)
    have u: "unloaded s buf
             = ?s2\<lparr>trace := trace ?s2 @ [Fire (DidCloseTextDocument old)]\<rparr>"
      using Some by (simp add: unloaded_def Let_def onBufUnload_def)
    show ?thesis by (simp only: c) (simp only: complete_step [OF r] unload_stage u)
  qed
qed

text \<open>
  A call that runs alone has returned after six resumptions, and leaves the workspace
  of the closed form.
\<close>

lemma called_stage:
  "complete 6 e s (Called buf)
   = (if buf \<in> creating s then s
      else if \<not> bufloaded e buf then s
      else afterInit e (unloaded s buf) buf, Done)"
proof -
  have six: "(6::nat) = Suc (Suc (Suc (Suc (Suc (Suc 0)))))" by simp
  show ?thesis
  proof (cases "buf \<in> creating s")
    case True
    then have r: "resume e s (Called buf) = (s, Done)" by simp
    have c: "(if buf \<in> creating s then s
              else if \<not> bufloaded e buf then s
              else afterInit e (unloaded s buf) buf) = s"
      using True by simp
    show ?thesis by (simp only: c) (simp only: six complete_step [OF r] complete_Done)
  next
    case False
    then have r: "resume e s (Called buf) = (s, AtBufloaded buf)" by simp
    have c: "(if buf \<in> creating s then s
              else if \<not> bufloaded e buf then s
              else afterInit e (unloaded s buf) buf)
             = (if \<not> bufloaded e buf then s else afterInit e (unloaded s buf) buf)"
      using False by simp
    show ?thesis by (simp only: c) (simp only: six complete_step [OF r] bufloaded_stage)
  qed
qed

lemma onBufCreate_returns: "snd (complete 6 e s (Called buf)) = Done"
  by (simp add: called_stage)

lemma onBufCreate_closed:
  "onBufCreate e s buf
   = (if buf \<in> creating s then s
      else if \<not> bufloaded e buf then s
      else afterInit e (unloaded s buf) buf)"
  by (simp add: onBufCreate_def called_stage)

text \<open>The buffer is being created already, or is not loaded: nothing happens.\<close>

lemma onBufCreate_skipped:
  assumes "buf \<in> creating s \<or> \<not> bufloaded e buf"
  shows "onBufCreate e s buf = s"
proof (cases "buf \<in> creating s")
  case True
  then have "(buf \<in> creating s) = True" by simp
  then show ?thesis unfolding onBufCreate_closed by (simp only: if_True)
next
  case False
  then have "(buf \<in> creating s) = False" "(\<not> bufloaded e buf) = True"
    using assms by simp_all
  then show ?thesis unfolding onBufCreate_closed by (simp only: if_True if_False)
qed

text \<open>The document is not created: the old one is gone and none is stored.\<close>

lemma onBufCreate_not_created:
  assumes "buf \<notin> creating s" "bufloaded e buf"
    "\<forall>doc. documentInit e buf \<noteq> Inr (Some doc)"
  shows "onBufCreate e s buf
         = (unloaded s buf)\<lparr>creating := creating (unloaded s buf) - {buf}\<rparr>"
proof -
  have a: "(buf \<in> creating s) = False" "(\<not> bufloaded e buf) = False"
    using assms by simp_all
  show ?thesis
  proof (cases "documentInit e buf")
    case (Inl err)
    show ?thesis unfolding onBufCreate_closed afterInit_def
      by (simp only: a Inl if_False sum.case)
  next
    case (Inr x)
    then have x: "documentInit e buf = Inr None" using assms(3) by (cases x) simp_all
    show ?thesis unfolding onBufCreate_closed afterInit_def
      by (simp only: a x if_False sum.case option.case)
  qed
qed

lemma onBufCreate_created:
  assumes "buf \<notin> creating s" "bufloaded e buf" "documentInit e buf = Inr (Some doc)"
  shows "onBufCreate e s buf =
           (let s4 = beforeRoot s buf doc;
                s5 = (if buftype doc = [] \<and> schema doc = ''file''
                      then (case resolveRoot e s4 (uri doc) of
                              None \<Rightarrow> s4
                            | Some r \<Rightarrow>
                                if r \<noteq> [] \<and> root s4 \<noteq> r then changeRoot e s4 r else s4)
                      else s4)
            in s5\<lparr>trace := trace s5 @ [Fire (DidOpenTextDocument doc)]\<rparr>)"
proof -
  have a: "(buf \<in> creating s) = False" "(\<not> bufloaded e buf) = False"
    using assms by simp_all
  show ?thesis
    unfolding onBufCreate_closed afterInit_def beforeRoot_def Let_def
    by (simp only: a assms(3) if_False sum.case option.case)
qed

text \<open>The document is created and the root changes.\<close>

lemma onBufCreate_new_root:
  assumes "buf \<notin> creating s" "bufloaded e buf" "documentInit e buf = Inr (Some doc)"
    and "buftype doc = []" "schema doc = ''file''"
    and "resolveRoot e s (uri doc) = Some r" "r \<noteq> []" "root s \<noteq> r"
  shows "onBufCreate e s buf =
           (changeRoot e (beforeRoot s buf doc) r)
             \<lparr>trace := trace (changeRoot e (beforeRoot s buf doc) r)
                        @ [Fire (DidOpenTextDocument doc)]\<rparr>"
proof -
  have c1: "(buftype doc = [] \<and> schema doc = ''file'') = True"
    using assms(4,5) by simp
  have c2: "resolveRoot e (beforeRoot s buf doc) (uri doc) = Some r"
    using resolveRoot_beforeRoot [of e s buf doc "uri doc"] assms(6) by simp
  have c3: "(r \<noteq> [] \<and> root (beforeRoot s buf doc) \<noteq> r) = True"
    using beforeRoot_fields [of s buf doc] assms(7,8) by simp
  show ?thesis
    unfolding onBufCreate_created [OF assms(1-3)] Let_def
    by (simp only: c1 c2 c3 if_True option.case)
qed

text \<open>The document is created and the root stays.\<close>

lemma onBufCreate_same_root:
  assumes "buf \<notin> creating s" "bufloaded e buf" "documentInit e buf = Inr (Some doc)"
    and "\<not> (buftype doc = [] \<and> schema doc = ''file'' \<and>
             (\<exists>r. resolveRoot e s (uri doc) = Some r \<and> r \<noteq> [] \<and> root s \<noteq> r))"
  shows "onBufCreate e s buf =
           (beforeRoot s buf doc)
             \<lparr>trace := trace (beforeRoot s buf doc) @ [Fire (DidOpenTextDocument doc)]\<rparr>"
proof (cases "buftype doc = [] \<and> schema doc = ''file''")
  case False
  then have c1: "(buftype doc = [] \<and> schema doc = ''file'') = False" by simp
  show ?thesis
    unfolding onBufCreate_created [OF assms(1-3)] Let_def by (simp only: c1 if_False)
next
  case True
  then have c1: "(buftype doc = [] \<and> schema doc = ''file'') = True" by simp
  show ?thesis
  proof (cases "resolveRoot e s (uri doc)")
    case None
    then have c2: "resolveRoot e (beforeRoot s buf doc) (uri doc) = None"
      using resolveRoot_beforeRoot [of e s buf doc "uri doc"] by simp
    show ?thesis
      unfolding onBufCreate_created [OF assms(1-3)] Let_def
      by (simp only: c1 c2 if_True option.case)
  next
    case (Some r)
    then have c2: "resolveRoot e (beforeRoot s buf doc) (uri doc) = Some r"
      using resolveRoot_beforeRoot [of e s buf doc "uri doc"] by simp
    have "\<not> (r \<noteq> [] \<and> root s \<noteq> r)" using assms(4) True Some by blast
    then have c3: "(r \<noteq> [] \<and> root (beforeRoot s buf doc) \<noteq> r) = False"
      using beforeRoot_fields [of s buf doc] by simp
    show ?thesis
      unfolding onBufCreate_created [OF assms(1-3)] Let_def
      by (simp only: c1 c2 c3 if_True if_False option.case)
  qed
qed

text \<open>The four cases cover every call.\<close>

lemma onBufCreate_cases:
  obtains (skip) "buf \<in> creating s \<or> \<not> bufloaded e buf"
  | (fail) "buf \<notin> creating s" "bufloaded e buf"
      "\<forall>doc. documentInit e buf \<noteq> Inr (Some doc)"
  | (new) doc r where "buf \<notin> creating s" "bufloaded e buf"
      "documentInit e buf = Inr (Some doc)" "buftype doc = []" "schema doc = ''file''"
      "resolveRoot e s (uri doc) = Some r" "r \<noteq> []" "root s \<noteq> r"
  | (same) doc where "buf \<notin> creating s" "bufloaded e buf"
      "documentInit e buf = Inr (Some doc)"
      "\<not> (buftype doc = [] \<and> schema doc = ''file'' \<and>
          (\<exists>r. resolveRoot e s (uri doc) = Some r \<and> r \<noteq> [] \<and> root s \<noteq> r))"
  by blast

section \<open>The registry holds one document per buffer\<close>

lemma onBufCreate_buffers:
  "buffers (onBufCreate e s buf) = buffers s
   \<or> buffers (onBufCreate e s buf) = AList.delete buf (buffers s)
   \<or> (\<exists>doc. buffers (onBufCreate e s buf)
             = AList.update buf doc (AList.delete buf (buffers s)))"
proof (cases rule: onBufCreate_cases [of buf s e])
  case skip
  then have "onBufCreate e s buf = s" by (rule onBufCreate_skipped)
  then show ?thesis by simp
next
  case fail
  have "buffers (onBufCreate e s buf) = AList.delete buf (buffers s)"
    using unloaded_fields [of s buf] by (simp add: onBufCreate_not_created [OF fail])
  then show ?thesis by simp
next
  case (new doc r)
  have "buffers (onBufCreate e s buf) = AList.update buf doc (AList.delete buf (buffers s))"
    using changeRoot_frame [of e "beforeRoot s buf doc" r] beforeRoot_fields [of s buf doc]
    by (simp add: onBufCreate_new_root [OF new])
  then show ?thesis by blast
next
  case (same doc)
  have "buffers (onBufCreate e s buf) = AList.update buf doc (AList.delete buf (buffers s))"
    using beforeRoot_fields [of s buf doc]
    by (simp add: onBufCreate_same_root [OF same])
  then show ?thesis by blast
qed

lemma onBufCreate_distinct:
  assumes "distinct (map fst (buffers s))"
  shows "distinct (map fst (buffers (onBufCreate e s buf)))"
  using onBufCreate_buffers [of e s buf] assms
  by (auto simp: distinct_delete distinct_update)

lemma onBufUnload_distinct:
  assumes "distinct (map fst (buffers s))"
  shows "distinct (map fst (buffers (onBufUnload s n)))"
  using onBufUnload_frame [of s n] assms by (simp add: distinct_delete)

lemma checkBuffer_distinct:
  assumes "distinct (map fst (buffers s))"
  shows "distinct (map fst (buffers (checkBuffer e s)))"
proof -
  have "distinct (map fst (buffers (s\<lparr>curBufnr := Some (currentBuffer e)\<rparr>)))"
    using assms by simp
  from onBufCreate_distinct [OF this] assms show ?thesis
    by (simp add: checkBuffer_def Let_def split: option.splits)
qed

lemma renameFile_distinct:
  assumes "distinct (map fst (buffers s))"
  shows "distinct (map fst (buffers (renameFile e s oldPath newPath opts)))"
proof -
  have a: "\<And>d tr n. distinct (map fst (buffers (onBufCreate e (s\<lparr>disk := d, trace := tr\<rparr>) n)))"
    using assms by (intro onBufCreate_distinct) simp
  show ?thesis using assms a
    by (simp add: renameFile_def Let_def split: sum.splits option.splits)
qed

lemma step_distinct:
  assumes "distinct (map fst (buffers s))"
  shows "distinct (map fst (buffers (step e s x)))"
  using assms
  by (cases x) (simp_all add: onBufCreate_distinct onBufUnload_distinct checkBuffer_distinct
      renameFile_distinct)

lemma run_distinct:
  assumes "distinct (map fst (buffers s))"
  shows "distinct (map fst (buffers (run s xs)))"
  using assms by (induction xs arbitrary: s) (simp_all add: step_distinct)

lemma distinct_keys_one_entry:
  "distinct (map fst xs) \<Longrightarrow> length (filter (\<lambda>b. fst b = n) xs) \<le> 1"
proof (induction xs)
  case Nil
  show ?case by simp
next
  case (Cons x xs)
  show ?case
  proof (cases "fst x = n")
    case True
    then have "n \<notin> fst ` set xs" using Cons.prems by simp
    then have "filter (\<lambda>b. fst b = n) xs = []" by (auto simp: filter_empty_conv)
    then show ?thesis using True by simp
  next
    case False
    then show ?thesis using Cons by simp
  qed
qed

lemma run_one_entry:
  assumes "distinct (map fst (buffers s))"
  shows "length (entriesFor (run s xs) n) \<le> 1"
  unfolding entriesFor_def by (rule distinct_keys_one_entry [OF run_distinct [OF assms]])

text \<open>A document created again: the trace and the registry entry.\<close>

lemma onBufCreate_recreated:
  assumes "map_of (buffers s) buf = Some old" "buf \<notin> creating s" "bufloaded e buf"
    "documentInit e buf = Inr (Some new)"
  shows "(\<exists>mid. trace (onBufCreate e s buf)
                 = trace s @ [Detach old, Fire (DidCloseTextDocument old)] @ mid
                   @ [Fire (DidOpenTextDocument new)])
         \<and> map_of (buffers (onBufCreate e s buf)) buf = Some new"
proof -
  let ?b = "beforeRoot s buf new"
  have tb: "trace ?b = trace s @ [Detach old, Fire (DidCloseTextDocument old)]"
    using beforeRoot_trace [of s buf new] unloaded_trace [of s buf] assms(1) by simp
  have bb: "map_of (buffers ?b) buf = Some new"
    using beforeRoot_fields [of s buf new] by (simp add: update_conv')
  show ?thesis
  proof (cases "buftype new = [] \<and> schema new = ''file'' \<and>
                (\<exists>r. resolveRoot e s (uri new) = Some r \<and> r \<noteq> [] \<and> root s \<noteq> r)")
    case True
    then obtain r where r: "buftype new = []" "schema new = ''file''"
        "resolveRoot e s (uri new) = Some r" "r \<noteq> []" "root s \<noteq> r"
      by blast
    note eq = onBufCreate_new_root [OF assms(2-4) r]
    obtain c f where t: "trace (changeRoot e ?b r)
        = trace ?b @ [Fire (DidChangeConfiguration c), Fire (DidChangeWorkspaceFolder f)]"
      using changeRoot_frame [of e ?b r] by blast
    have "trace (onBufCreate e s buf)
          = trace s @ [Detach old, Fire (DidCloseTextDocument old)]
            @ [Fire (DidChangeConfiguration c), Fire (DidChangeWorkspaceFolder f)]
            @ [Fire (DidOpenTextDocument new)]"
      by (simp add: eq t tb)
    moreover have "map_of (buffers (onBufCreate e s buf)) buf = Some new"
      using changeRoot_frame [of e ?b r] bb by (simp add: eq)
    ultimately show ?thesis by blast
  next
    case False
    note eq = onBufCreate_same_root [OF assms(2-4) False]
    have "trace (onBufCreate e s buf)
          = trace s @ [Detach old, Fire (DidCloseTextDocument old)] @ []
            @ [Fire (DidOpenTextDocument new)]"
      by (simp add: eq tb)
    moreover have "map_of (buffers (onBufCreate e s buf)) buf = Some new"
      using bb by (simp add: eq)
    ultimately show ?thesis by blast
  qed
qed

lemma onBufCreate_resolved_current:
  assumes "buf \<notin> creating s" "bufloaded e buf" "documentInit e buf = Inr (Some doc)"
    and "resolveRoot e s (uri doc) = Some (root s)"
  shows "root (onBufCreate e s buf) = root s
         \<and> rootEvents (trace (onBufCreate e s buf)) = rootEvents (trace s)
         \<and> wconfigurations (onBufCreate e s buf) = wconfigurations s"
proof -
  have n: "\<not> (buftype doc = [] \<and> schema doc = ''file'' \<and>
              (\<exists>r. resolveRoot e s (uri doc) = Some r \<and> r \<noteq> [] \<and> root s \<noteq> r))"
    using assms(4) by simp
  show ?thesis
    using beforeRoot_fields [of s buf doc]
    by (simp add: onBufCreate_same_root [OF assms(1-3) n] rootEvents_append)
       (simp add: rootEvents_def)
qed

lemma onBufCreate_root_kept:
  "root (onBufCreate e s buf) = root s \<Longrightarrow>
   rootEvents (trace (onBufCreate e s buf)) = rootEvents (trace s)"
proof (cases rule: onBufCreate_cases [of buf s e])
  case skip
  then have "onBufCreate e s buf = s" by (rule onBufCreate_skipped)
  then show ?thesis by simp
next
  case fail
  show ?thesis
    using unloaded_fields [of s buf] by (simp add: onBufCreate_not_created [OF fail])
next
  case (new doc r)
  assume k: "root (onBufCreate e s buf) = root s"
  have "root (onBufCreate e s buf) = r"
    using changeRoot_frame [of e "beforeRoot s buf doc" r]
    by (simp add: onBufCreate_new_root [OF new])
  then show ?thesis using k new(8) by simp
next
  case (same doc)
  show ?thesis
    using beforeRoot_fields [of s buf doc]
    by (simp add: onBufCreate_same_root [OF same] rootEvents_append)
       (simp add: rootEvents_def)
qed

lemma onBufCreate_root_changed:
  "root (onBufCreate e s buf) \<noteq> root s \<Longrightarrow>
   \<exists>c f. rootEvents (trace (onBufCreate e s buf))
         = rootEvents (trace s)
           @ [Fire (DidChangeConfiguration c), Fire (DidChangeWorkspaceFolder f)]"
proof (cases rule: onBufCreate_cases [of buf s e])
  case skip
  assume k: "root (onBufCreate e s buf) \<noteq> root s"
  have "onBufCreate e s buf = s" using skip by (rule onBufCreate_skipped)
  then show ?thesis using k by simp
next
  case fail
  assume k: "root (onBufCreate e s buf) \<noteq> root s"
  have "root (onBufCreate e s buf) = root s"
    using unloaded_fields [of s buf] by (simp add: onBufCreate_not_created [OF fail])
  then show ?thesis using k by simp
next
  case (new doc r)
  let ?b = "beforeRoot s buf doc"
  obtain c f where t: "trace (changeRoot e ?b r)
      = trace ?b @ [Fire (DidChangeConfiguration c), Fire (DidChangeWorkspaceFolder f)]"
    using changeRoot_frame [of e ?b r] by blast
  have "rootEvents (trace (onBufCreate e s buf))
        = rootEvents (trace s)
          @ [Fire (DidChangeConfiguration c), Fire (DidChangeWorkspaceFolder f)]"
    using beforeRoot_fields [of s buf doc]
    by (simp add: onBufCreate_new_root [OF new] t rootEvents_append)
       (simp add: rootEvents_def)
  then show ?thesis by blast
next
  case (same doc)
  assume k: "root (onBufCreate e s buf) \<noteq> root s"
  have "root (onBufCreate e s buf) = root s"
    using beforeRoot_fields [of s buf doc] by (simp add: onBufCreate_same_root [OF same])
  then show ?thesis using k by simp
qed

section \<open>Calls that overlap\<close>

text \<open>
  A call that was suspended after its test of the root (\<^verbatim>\<open>this._root !== root\<close>)
  stores the root, reloads the configuration and fires the folder event when it is
  resumed, whatever the root of the workspace has become in between.
\<close>

lemma resumed_root_events:
  "snd (complete (Suc (Suc n)) e s (AtFindUp buf doc r)) = Done
   \<and> root (fst (complete (Suc (Suc n)) e s (AtFindUp buf doc r))) = r
   \<and> (\<exists>c f. rootEvents (trace (fst (complete (Suc (Suc n)) e s (AtFindUp buf doc r))))
              = rootEvents (trace s)
                @ [Fire (DidChangeConfiguration c), Fire (DidChangeWorkspaceFolder f)])"
proof -
  obtain c f where t: "trace (changeRoot e s r)
      = trace s @ [Fire (DidChangeConfiguration c), Fire (DidChangeWorkspaceFolder f)]"
    using changeRoot_frame [of e s r] by blast
  have "rootEvents (trace (opened (changeRoot e s r) doc))
        = rootEvents (trace s)
          @ [Fire (DidChangeConfiguration c), Fire (DidChangeWorkspaceFolder f)]"
    by (simp add: opened_def t rootEvents_def)
  moreover have "root (opened (changeRoot e s r) doc) = r"
    using changeRoot_frame [of e s r] by (simp add: opened_def)
  ultimately show ?thesis by (simp only: findup_stage fst_conv snd_conv) blast
qed

text \<open>
  A call of \<^verbatim>\<open>onBufCreate\<close> that runs alone: the stored root is another exactly when
  the configuration event and the folder event were fired once each, and a document
  whose resolved root is the current root changes neither root nor configuration.
\<close>

lemma onBufCreate_alone_root_events:
  "(root (onBufCreate e s buf) = root s \<longrightarrow>
      rootEvents (trace (onBufCreate e s buf)) = rootEvents (trace s))
   \<and> (root (onBufCreate e s buf) \<noteq> root s \<longrightarrow>
        (\<exists>c f. rootEvents (trace (onBufCreate e s buf))
                = rootEvents (trace s)
                  @ [Fire (DidChangeConfiguration c), Fire (DidChangeWorkspaceFolder f)]))
   \<and> (buf \<notin> creating s \<and> bufloaded e buf \<and> documentInit e buf = Inr (Some doc)
       \<and> resolveRoot e s (uri doc) = Some (root s)
      \<longrightarrow> root (onBufCreate e s buf) = root s
          \<and> rootEvents (trace (onBufCreate e s buf)) = rootEvents (trace s)
          \<and> wconfigurations (onBufCreate e s buf) = wconfigurations s)"
  using onBufCreate_root_kept [of e s buf] onBufCreate_root_changed [of e s buf]
    onBufCreate_resolved_current [of buf s e doc]
  by blast


text \<open>The registry keeps one entry per buffer however the calls are resumed.\<close>

lemma resume_distinct:
  assumes "distinct (map fst (buffers s))"
  shows "distinct (map fst (buffers (fst (resume e s t))))"
proof -
  have f: "\<And>s1 r. buffers (storeRoot e s1 r) = buffers s1"
    by (simp add: storeRoot_def Let_def onConfigurationChange_frame)
  have g: "\<And>s1 file. buffers (attachFolderFile e s1 file) = buffers s1"
    by (simp add: attachFolderFile_def split: option.splits)
  show ?thesis
    using assms
    by (cases t)
       (auto simp: Let_def opened_def f g distinct_update distinct_delete
             split: option.splits sum.splits)
qed

lemma interleave_distinct:
  "distinct (map fst (buffers s))
   \<Longrightarrow> distinct (map fst (buffers (fst (interleave e s ts sched))))"
  by (induction sched arbitrary: s ts) (simp_all add: resume_distinct)

lemma invokeAll_workspace: "fst (invokeAll e s bufs) = s"
  by (induction bufs arbitrary: s) simp_all

lemma attachBuffers_distinct:
  "distinct (map fst (buffers s))
   \<Longrightarrow> distinct (map fst (buffers (fst (attachBuffers e s bufs sched))))"
  by (simp add: attachBuffers_def invokeAll_workspace interleave_distinct)

section \<open>The claims\<close>

text \<open>
  C1. For every workspace edit whose validation fails, \<^verbatim>\<open>applyEdit\<close> returns
  \<^verbatim>\<open>false\<close> and no document content, no file content and no entry of the file system
  is changed. The validation fails when \<^verbatim>\<open>validteDocumentChanges\<close> returns
  \<^verbatim>\<open>false\<close>, or when it returns \<^verbatim>\<open>true\<close> and \<^verbatim>\<open>validateChanges\<close>, which
  \<^verbatim>\<open>applyEdit\<close> calls next, returns \<^verbatim>\<open>false\<close>. Both run before the first mutation;
  they only echo a message.
\<close>

theorem applyEdit_validation_fails:
  assumes "fst (validteDocumentChanges e s (documentChanges edit)) = Inr False
           \<or> (fst (validteDocumentChanges e s (documentChanges edit)) = Inr True
              \<and> \<not> fst (validateChanges e s (changes edit)))"
  shows "fst (applyEdit e s edit) = Inr False
         \<and> buffers (snd (applyEdit e s edit)) = buffers s
         \<and> disk (snd (applyEdit e s edit)) = disk s"
proof -
  obtain r s1 where r: "validteDocumentChanges e s (documentChanges edit) = (r, s1)"
    by (cases "validteDocumentChanges e s (documentChanges edit)")
  have f1: "buffers s1 = buffers s \<and> disk s1 = disk s"
    using validteDocumentChanges_frame [of e s "documentChanges edit"] r by simp
  from assms r consider (a) "r = Inr False"
    | (b) "r = Inr True" "\<not> fst (validateChanges e s (changes edit))"
    by auto
  then show ?thesis
  proof cases
    case a
    then show ?thesis using r f1 by (simp add: applyEdit_def)
  next
    case b
    have "s1 = s"
      using validteDocumentChanges_True [of e s "documentChanges edit"] r b(1) by simp
    obtain v s2 where v: "validateChanges e s (changes edit) = (v, s2)"
      by (cases "validateChanges e s (changes edit)")
    have f2: "buffers s2 = buffers s \<and> disk s2 = disk s"
      using validateChanges_frame [of e s "changes edit"] v by simp
    show ?thesis using r b v f2 \<open>s1 = s\<close> by (simp add: applyEdit_def)
  qed
qed

theorem applyEdit_validation_fails_witness:
  "\<not> fst (validateChanges exampleEnv exampleWorkspace (changes invalidEdit))
   \<and> fst (applyEdit exampleEnv exampleWorkspace invalidEdit) = Inr False
   \<and> buffers (snd (applyEdit exampleEnv exampleWorkspace invalidEdit))
       = buffers exampleWorkspace
   \<and> disk (snd (applyEdit exampleEnv exampleWorkspace invalidEdit)) = disk exampleWorkspace"
proof -
  have a: "fst (validteDocumentChanges exampleEnv exampleWorkspace
                  (documentChanges invalidEdit)) = Inr True"
    by (simp add: invalidEdit_def validteDocumentChanges_def)
  have b: "\<not> fst (validateChanges exampleEnv exampleWorkspace (changes invalidEdit))"
    by (simp add: invalidEdit_def validateChanges_def exampleEnv_def)
  show ?thesis
    using applyEdit_validation_fails [of exampleEnv exampleWorkspace invalidEdit] a b
    by simp
qed

text \<open>
  C2. The claim: an edit of \<^verbatim>\<open>documentChanges\<close> with version \<^verbatim>\<open>null\<close> whose file
  exists and has no document passes the validation and is applied to the file, and no
  exception leaves \<^verbatim>\<open>applyEdit\<close>. The code: the validation reads \<^verbatim>\<open>doc.version\<close>
  of the document it did not find, so \<^verbatim>\<open>applyEdit\<close> raises a \<^verbatim>\<open>TypeError\<close> for
  every such edit that the validation reaches, and nothing is applied.
\<close>

theorem applyEdit_null_version_raises:
  assumes "validteChangeList e s pre = (Inr True, s)"
    and "getDocument s (Inr u) = None"
  shows "applyEdit e s
           \<lparr>changes = ch,
            documentChanges = Changes (pre @ TextDocumentEdit u None edits # rest)\<rparr>
         = (Inl (TypeError ''Cannot read property 'version' of null''), s)"
proof -
  have "validteChange e s (TextDocumentEdit u None edits)
        = (Inl (TypeError ''Cannot read property 'version' of null''), s)"
    using assms(2) by (simp add: validteChange_def versionTruthy_def)
  then have "validteChangeList e s (pre @ TextDocumentEdit u None edits # rest)
        = (Inl (TypeError ''Cannot read property 'version' of null''), s)"
    using validteChangeList_append [OF assms(1)] by simp
  then show ?thesis by (simp add: applyEdit_def validteDocumentChanges_def)
qed

theorem applyEdit_null_version_raises_witness:
  "startsWith ''file:///tmp/new.txt'' ''file''
   \<and> existsSync (disk exampleWorkspace) (uriFsPath exampleEnv ''file:///tmp/new.txt'')
   \<and> getDocument exampleWorkspace (Inr ''file:///tmp/new.txt'') = None
   \<and> applyEdit exampleEnv exampleWorkspace nullVersionEdit
       = (Inl (TypeError ''Cannot read property 'version' of null''), exampleWorkspace)"
proof -
  have a: "validteChangeList exampleEnv exampleWorkspace [] = (Inr True, exampleWorkspace)"
    by simp
  have b: "getDocument exampleWorkspace (Inr ''file:///tmp/new.txt'') = None"
    by (simp add: exampleWorkspace_def)
  have c: "startsWith ''file:///tmp/new.txt'' ''file''"
    by (simp add: startsWith_def)
  have d: "existsSync (disk exampleWorkspace) (uriFsPath exampleEnv ''file:///tmp/new.txt'')"
    by (simp add: existsSync_def lookupPath_def pathKey_def startsWith_def endsWith_def
        exampleEnv_def exampleWorkspace_def)
  show ?thesis
    using applyEdit_null_version_raises [OF a b, of None "[]" "[]"] b c d
    by (simp add: nullVersionEdit_def)
qed

text \<open>
  C3. The claim: a create-file operation whose URI has the scheme \<^verbatim>\<open>file\<close> and whose
  path does not exist is accepted by the validation. The code: the test of the scheme
  is inverted (\<^verbatim>\<open>u.scheme === 'file'\<close> under the message "should be file"), so every
  create-file operation with the scheme \<^verbatim>\<open>file\<close> that the validation reaches ends it
  with \<^verbatim>\<open>false\<close>, and \<^verbatim>\<open>applyEdit\<close> returns \<^verbatim>\<open>false\<close>.
\<close>

theorem validteDocumentChanges_rejects_file_scheme:
  assumes "validteChangeList e s pre = (Inr True, s)"
    and "uriScheme e u = ''file''"
  shows "validteDocumentChanges e s (Changes (pre @ CreateFile u opts # rest))
         = (Inr False, showMessage s (''scheme of '' @ u @ '' should be file'') MsgError)
         \<and> fst (applyEdit e s
                  \<lparr>changes = ch,
                   documentChanges = Changes (pre @ CreateFile u opts # rest)\<rparr>)
             = Inr False"
proof -
  have "validteChange e s (CreateFile u opts)
        = (Inr False, showMessage s (''scheme of '' @ u @ '' should be file'') MsgError)"
    using assms(2) by (simp add: validteChange_def)
  then have "validteChangeList e s (pre @ CreateFile u opts # rest)
        = (Inr False, showMessage s (''scheme of '' @ u @ '' should be file'') MsgError)"
    using validteChangeList_append [OF assms(1)] by simp
  then show ?thesis by (simp add: applyEdit_def validteDocumentChanges_def)
qed

theorem validteDocumentChanges_rejects_file_scheme_witness:
  "uriScheme exampleEnv ''file:///tmp/missing.txt'' = ''file''
   \<and> \<not> existsSync (disk exampleWorkspace) (uriFsPath exampleEnv ''file:///tmp/missing.txt'')
   \<and> fst (validteDocumentChanges exampleEnv exampleWorkspace
             (Changes [CreateFile ''file:///tmp/missing.txt'' noCreateOptions]))
       = Inr False"
proof -
  have a: "validteChangeList exampleEnv exampleWorkspace [] = (Inr True, exampleWorkspace)"
    by simp
  have b: "uriScheme exampleEnv ''file:///tmp/missing.txt'' = ''file''"
    by (simp add: exampleEnv_def)
  have c: "\<not> existsSync (disk exampleWorkspace)
               (uriFsPath exampleEnv ''file:///tmp/missing.txt'')"
    by (simp add: existsSync_def lookupPath_def pathKey_def startsWith_def endsWith_def
        exampleEnv_def exampleWorkspace_def)
  show ?thesis
    using validteDocumentChanges_rejects_file_scheme [OF a b, of noCreateOptions "[]" None]
      b c
    by simp
qed

text \<open>
  C4. The claim: \<^verbatim>\<open>deleteFile\<close> on a path that does not exist shows an error
  message and returns normally. The code: \<^verbatim>\<open>stat.isDirectory()\<close> is called before
  \<^verbatim>\<open>stat\<close> is tested, so whenever the stat the code makes, on the path without one
  trailing separator, finds nothing, the call raises a \<^verbatim>\<open>TypeError\<close>, whatever the
  options, and no message is shown. That is so for every path at which nothing is,
  written with or without a trailing separator (\<open>missing_path_stripped\<close>).
\<close>

theorem deleteFile_missing_path_raises:
  assumes "statAsync (disk s) (stripTrailingSlash filepath) = None"
  shows "deleteFile e s filepath opts
         = (Inl (TypeError ''Cannot read property 'isDirectory' of null''), s)"
  using assms by (simp add: deleteFile_def)

theorem deleteFile_missing_path_raises_witness:
  "statAsync (disk exampleWorkspace) ''/tmp/missing.txt'' = None
   \<and> stripTrailingSlash ''/tmp/missing.txt'' = ''/tmp/missing.txt''
   \<and> \<not> ignoreIfNotExists noDeleteOptions
   \<and> deleteFile exampleEnv exampleWorkspace ''/tmp/missing.txt'' noDeleteOptions
       = (Inl (TypeError ''Cannot read property 'isDirectory' of null''), exampleWorkspace)"
proof -
  have n: "stripTrailingSlash ''/tmp/missing.txt'' = ''/tmp/missing.txt''"
    by (simp add: stripTrailingSlash_def endsWith_def)
  have a: "statAsync (disk exampleWorkspace) ''/tmp/missing.txt'' = None"
    by (simp add: statAsync_def lookupPath_def pathKey_def exampleWorkspace_def)
  have b: "statAsync (disk exampleWorkspace) (stripTrailingSlash ''/tmp/missing.txt'') = None"
    using a by (simp only: n)
  show ?thesis
    using deleteFile_missing_path_raises [OF b, of exampleEnv noDeleteOptions] a n
    by (simp add: noDeleteOptions_def)
qed

text \<open>
  C5. The claim: \<^verbatim>\<open>deleteFile\<close> on an existing non-empty directory, without the
  option \<^verbatim>\<open>recursive\<close>, reports an error message and leaves the file system as it
  is. While a prompt is open (\<^verbatim>\<open>_blocking\<close>) \<^verbatim>\<open>showMessage\<close> drops the message: on
  the blocked workspace nothing is echoed for the non-empty directory \<^verbatim>\<open>/tmp/dir/\<close>.
\<close>

theorem deleteFile_blocked_counterexample:
  "statAsync (disk blockedWorkspace) ''/tmp/dir/'' = Some Directory
   \<and> hasEntries (disk blockedWorkspace) ''/tmp/dir/''
   \<and> \<not> recursive noDeleteOptions
   \<and> fst (deleteFile exampleEnv blockedWorkspace ''/tmp/dir/'' noDeleteOptions) = Inr ()
   \<and> trace (snd (deleteFile exampleEnv blockedWorkspace ''/tmp/dir/'' noDeleteOptions)) = []"
  by (simp add: deleteFile_def statAsync_def lookupPath_def pathKey_def hasEntries_def
      startsWith_def endsWith_def stripTrailingSlash_def showMessage_def
      blockedWorkspace_def exampleWorkspace_def noDeleteOptions_def)

text \<open>
  C5, as the code has it: for every existing non-empty directory other than the root
  directory written \<^verbatim>\<open>/\<close>, \<^verbatim>\<open>deleteFile\<close> without the option \<^verbatim>\<open>recursive\<close> leaves
  the file system as it is, and the message "Can't remove directory, recursive not set"
  is echoed as an error unless a prompt is open; then nothing is echoed.
\<close>

theorem deleteFile_directory_not_recursive:
  assumes "statAsync (disk s) filepath = Some Directory"
    and "hasEntries (disk s) filepath"
    and "filepath \<noteq> ''/''"
    and "\<not> recursive opts"
  shows "disk (snd (deleteFile e s filepath opts)) = disk s
         \<and> trace (snd (deleteFile e s filepath opts))
           = (if blocking s then trace s
              else trace s @ [Echo MsgError ''Can't remove directory, recursive not set''])"
proof -
  have "statAsync (disk s) (stripTrailingSlash filepath) = Some Directory"
    using assms(1,3) by (rule statAsync_directory_stripped)
  then show ?thesis
    using assms(4) by (simp add: deleteFile_def showMessage_def)
qed

theorem deleteFile_directory_not_recursive_witness:
  "statAsync (disk exampleWorkspace) ''/tmp/dir/'' = Some Directory
   \<and> hasEntries (disk exampleWorkspace) ''/tmp/dir/''
   \<and> trace (snd (deleteFile exampleEnv exampleWorkspace ''/tmp/dir/'' noDeleteOptions))
       = [Echo MsgError ''Can't remove directory, recursive not set'']
   \<and> disk (snd (deleteFile exampleEnv exampleWorkspace ''/tmp/dir/'' noDeleteOptions))
       = disk exampleWorkspace"
proof -
  have a: "statAsync (disk exampleWorkspace) ''/tmp/dir/'' = Some Directory"
    by (simp add: statAsync_def lookupPath_def pathKey_def exampleWorkspace_def)
  have b: "\<not> recursive noDeleteOptions"
    by (simp add: noDeleteOptions_def)
  have c: "hasEntries (disk exampleWorkspace) ''/tmp/dir/''"
    by (simp add: hasEntries_def startsWith_def pathKey_def exampleWorkspace_def)
  have n: "''/tmp/dir/'' \<noteq> ''/''"
    by simp
  have d: "\<not> blocking exampleWorkspace" "trace exampleWorkspace = []"
    by (simp_all add: exampleWorkspace_def)
  show ?thesis
    using deleteFile_directory_not_recursive [OF a c n b, of exampleEnv] a c d by simp
qed

text \<open>
  C6. The claim: \<^verbatim>\<open>createFile\<close> on a path at which a file exists, with neither
  \<^verbatim>\<open>overwrite\<close> nor \<^verbatim>\<open>ignoreIfExists\<close>, reports an error message and writes
  nothing. While a prompt is open \<^verbatim>\<open>showMessage\<close> drops the message: on the blocked
  workspace nothing is echoed for the existing file \<^verbatim>\<open>/tmp/new.txt\<close>.
\<close>

theorem createFile_blocked_counterexample:
  "statAsync (disk blockedWorkspace) ''/tmp/new.txt'' = Some (File ''old'')
   \<and> \<not> overwrite noCreateOptions
   \<and> \<not> ignoreIfExists noCreateOptions
   \<and> fst (createFile exampleEnv blockedWorkspace ''/tmp/new.txt'' noCreateOptions) = Inr ()
   \<and> trace (snd (createFile exampleEnv blockedWorkspace ''/tmp/new.txt'' noCreateOptions)) = []"
  by (simp add: createFile_def statAsync_def lookupPath_def pathKey_def endsWith_def
      showMessage_def blockedWorkspace_def exampleWorkspace_def noCreateOptions_def)

text \<open>
  C6, as the code has it: for every path at which a file exists, \<^verbatim>\<open>createFile\<close> with
  neither \<^verbatim>\<open>overwrite\<close> nor \<^verbatim>\<open>ignoreIfExists\<close> returns normally, writes nothing and
  leaves the file's content as it is; the message "<path> already exists!" is echoed as
  an error unless a prompt is open, and then nothing is echoed.
\<close>

theorem createFile_existing_file:
  assumes "statAsync (disk s) filepath = Some (File c)"
    and "\<not> overwrite opts" and "\<not> ignoreIfExists opts"
  shows "createFile e s filepath opts
         = (Inr (),
            if blocking s then s
            else s\<lparr>trace := trace s @ [Echo MsgError (filepath @ '' already exists!'')]\<rparr>)
         \<and> disk (snd (createFile e s filepath opts)) = disk s
         \<and> readFileSync (disk (snd (createFile e s filepath opts))) filepath = Inr c"
  using assms
  by (simp add: createFile_def statAsync_def readFileSync_def showMessage_def)

theorem createFile_existing_file_witness:
  "statAsync (disk exampleWorkspace) ''/tmp/new.txt'' = Some (File ''old'')
   \<and> trace (snd (createFile exampleEnv exampleWorkspace ''/tmp/new.txt'' noCreateOptions))
       = [Echo MsgError ''/tmp/new.txt already exists!'']
   \<and> disk (snd (createFile exampleEnv exampleWorkspace ''/tmp/new.txt'' noCreateOptions))
       = disk exampleWorkspace
   \<and> readFileSync
         (disk (snd (createFile exampleEnv exampleWorkspace ''/tmp/new.txt'' noCreateOptions)))
         ''/tmp/new.txt'' = Inr ''old''"
proof -
  have a: "statAsync (disk exampleWorkspace) ''/tmp/new.txt'' = Some (File ''old'')"
    by (simp add: statAsync_def lookupPath_def pathKey_def endsWith_def
        exampleWorkspace_def)
  have b: "\<not> overwrite noCreateOptions" "\<not> ignoreIfExists noCreateOptions"
    by (simp_all add: noCreateOptions_def)
  have d: "\<not> blocking exampleWorkspace" "trace exampleWorkspace = []"
    by (simp_all add: exampleWorkspace_def)
  note th = createFile_existing_file [OF a b, of exampleEnv]
  have e1: "createFile exampleEnv exampleWorkspace ''/tmp/new.txt'' noCreateOptions
            = (Inr (), exampleWorkspace
                 \<lparr>trace := [Echo MsgError ''/tmp/new.txt already exists!'']\<rparr>)"
    using th d by simp
  have e2: "readFileSync
              (disk (snd (createFile exampleEnv exampleWorkspace ''/tmp/new.txt''
                            noCreateOptions)))
              ''/tmp/new.txt'' = Inr ''old''"
    using th by blast
  show ?thesis using a e2 by (simp add: e1)
qed

text \<open>
  C7. The claim: when the root resolved for a new document is the current root, neither
  the folder event nor the configuration event is fired, and the two events are fired
  once for each change of the root. The code: \<^verbatim>\<open>onBufCreate\<close> tests the root, awaits
  \<^verbatim>\<open>findUp\<close> (and \<^verbatim>\<open>statAsync\<close>), and only then stores the root and fires the
  events; \<^verbatim>\<open>attach()\<close> starts one call for each buffer and awaits them together. With
  the buffers 1 and 2 showing two files of \<^verbatim>\<open>/work/project\<close> and the root
  \<^verbatim>\<open>/work\<close>, both calls pass the test before either stores the root. After five
  resumptions the first call has returned, the root is \<^verbatim>\<open>/work/project\<close> and both
  events were fired once; the second call is waiting for \<^verbatim>\<open>findUp\<close> with that same
  root. Its resumption fires both events again: two configuration events and two
  folder events for one change of the root. The same two calls one after the other
  fire them once.
\<close>

theorem attach_root_events_twice:
  "root exampleWorkspace = ''/work''
   \<and> snd (attachBuffers exampleEnv exampleWorkspace [1, 2] [0, 1, 0, 1, 0])
       = [Done, AtFindUp 2 (exampleDocument 2) ''/work/project'']
   \<and> root (fst (attachBuffers exampleEnv exampleWorkspace [1, 2] [0, 1, 0, 1, 0]))
       = ''/work/project''
   \<and> rootEvents (trace (fst (attachBuffers exampleEnv exampleWorkspace [1, 2] [0, 1, 0, 1, 0])))
       = [Fire (DidChangeConfiguration exampleConfigurations),
          Fire (DidChangeWorkspaceFolder exampleFolder)]
   \<and> snd (attachBuffers exampleEnv exampleWorkspace [1, 2] [0, 1, 0, 1, 0, 1]) = [Done, Done]
   \<and> root (fst (attachBuffers exampleEnv exampleWorkspace [1, 2] [0, 1, 0, 1, 0, 1]))
       = ''/work/project''
   \<and> rootEvents
         (trace (fst (attachBuffers exampleEnv exampleWorkspace [1, 2] [0, 1, 0, 1, 0, 1])))
       = [Fire (DidChangeConfiguration exampleConfigurations),
          Fire (DidChangeWorkspaceFolder exampleFolder),
          Fire (DidChangeConfiguration exampleConfigurations),
          Fire (DidChangeWorkspaceFolder exampleFolder)]
   \<and> rootEvents
         (trace (run exampleWorkspace [(exampleEnv, BufCreate 1), (exampleEnv, BufCreate 2)]))
       = [Fire (DidChangeConfiguration exampleConfigurations),
          Fire (DidChangeWorkspaceFolder exampleFolder)]"
proof -
  have i: "invokeAll exampleEnv exampleWorkspace [1, 2]
           = (exampleWorkspace, [AtBufloaded 1, AtBufloaded 2])"
    by (simp add: exampleWorkspace_def)
  have r: "root exampleWorkspace = ''/work''"
    by (simp add: exampleWorkspace_def)
  have five:
    "snd (attachBuffers exampleEnv exampleWorkspace [1, 2] [0, 1, 0, 1, 0])
       = [Done, AtFindUp 2 (exampleDocument 2) ''/work/project'']
     \<and> root (fst (attachBuffers exampleEnv exampleWorkspace [1, 2] [0, 1, 0, 1, 0]))
         = ''/work/project''
     \<and> rootEvents
           (trace (fst (attachBuffers exampleEnv exampleWorkspace [1, 2] [0, 1, 0, 1, 0])))
         = [Fire (DidChangeConfiguration exampleConfigurations),
            Fire (DidChangeWorkspaceFolder exampleFolder)]"
    by (simp add: attachBuffers_def i Let_def exampleEnv_def exampleWorkspace_def
        exampleDocument_def exampleConfigurations_def exampleFolder_def resolveRoot_def
        startsWith_def orElse_def storeRoot_def opened_def onConfigurationChange_def
        loadConfigurations_def newConfigurations_def workspaceFolder_def rootPath_def
        uri_getter_def rootEvents_def CONFIG_FILE_NAME_def)
  have six:
    "snd (attachBuffers exampleEnv exampleWorkspace [1, 2] [0, 1, 0, 1, 0, 1]) = [Done, Done]
     \<and> root (fst (attachBuffers exampleEnv exampleWorkspace [1, 2] [0, 1, 0, 1, 0, 1]))
         = ''/work/project''
     \<and> rootEvents
           (trace (fst (attachBuffers exampleEnv exampleWorkspace [1, 2] [0, 1, 0, 1, 0, 1])))
         = [Fire (DidChangeConfiguration exampleConfigurations),
            Fire (DidChangeWorkspaceFolder exampleFolder),
            Fire (DidChangeConfiguration exampleConfigurations),
            Fire (DidChangeWorkspaceFolder exampleFolder)]"
    by (simp add: attachBuffers_def i Let_def exampleEnv_def exampleWorkspace_def
        exampleDocument_def exampleConfigurations_def exampleFolder_def resolveRoot_def
        startsWith_def orElse_def storeRoot_def opened_def onConfigurationChange_def
        loadConfigurations_def newConfigurations_def workspaceFolder_def rootPath_def
        uri_getter_def rootEvents_def CONFIG_FILE_NAME_def)
  have alone:
    "rootEvents
       (trace (run exampleWorkspace [(exampleEnv, BufCreate 1), (exampleEnv, BufCreate 2)]))
     = [Fire (DidChangeConfiguration exampleConfigurations),
        Fire (DidChangeWorkspaceFolder exampleFolder)]"
    by (simp add: onBufCreate_closed afterInit_def unloaded_def changeRoot_def
        attachFolderFile_def Let_def exampleEnv_def exampleWorkspace_def
        exampleDocument_def exampleConfigurations_def exampleFolder_def resolveRoot_def
        startsWith_def orElse_def storeRoot_def opened_def onConfigurationChange_def
        loadConfigurations_def newConfigurations_def workspaceFolder_def rootPath_def
        uri_getter_def rootEvents_def CONFIG_FILE_NAME_def)
  show ?thesis
    using r five six alone by (simp only: simp_thms)
qed

text \<open>
  C8. After a reload of the configuration, the predicate \<^verbatim>\<open>affectsConfiguration\<close> of
  the event that was fired is true for a section and a resource exactly when the merged
  value \<^verbatim>\<open>getConfiguration(section, resource)\<close> of the previous layer stack and that
  of the new one differ structurally. The event carries the previous stack; the new one
  is the stack of the workspace after the reload.
\<close>

theorem affectsConfiguration_after_reload:
  "trace (onConfigurationChange e s)
     = trace s @ [Fire (DidChangeConfiguration (wconfigurations s))]
   \<and> affectsConfiguration e (wconfigurations s) (onConfigurationChange e s) section resource
     = (getConfiguration e (wconfigurations s) section resource
        \<noteq> getConfiguration e (wconfigurations (onConfigurationChange e s)) section resource)"
  using onConfigurationChange_frame [of e s]
  by (simp add: affectsConfiguration_def equals_def Let_def)

text \<open>
  C9. The registry holds at most one document per buffer: after any sequence of
  buffer-create, buffer-unload, recheck and rename operations, started from the empty
  registry of a new workspace or from any registry with one entry per buffer, the map
  has at most one entry for every buffer number and its keys are distinct. When
  \<^verbatim>\<open>onBufCreate\<close> creates a document for a buffer that has one, the old document is
  detached and reported closed before the new one is reported open, and the entry of
  the buffer is the new document.
\<close>

theorem registry_uniqueness:
  "(buffers s = [] \<longrightarrow> length (entriesFor (run s xs) n) \<le> 1)
   \<and> (distinct (map fst (buffers s))
      \<longrightarrow> distinct (map fst (buffers (run s xs))) \<and> length (entriesFor (run s xs) n) \<le> 1)
   \<and> (map_of (buffers s) buf = Some old \<and> buf \<notin> creating s \<and> bufloaded e buf
       \<and> documentInit e buf = Inr (Some new)
      \<longrightarrow> (\<exists>mid. trace (onBufCreate e s buf)
                  = trace s @ [Detach old, Fire (DidCloseTextDocument old)] @ mid
                    @ [Fire (DidOpenTextDocument new)])
          \<and> map_of (buffers (onBufCreate e s buf)) buf = Some new)"
proof -
  have "buffers s = [] \<Longrightarrow> distinct (map fst (buffers s))" by simp
  then show ?thesis
    using run_distinct [of s xs] run_one_entry [of s xs n]
      onBufCreate_recreated [of s buf old e new]
    by blast
qed

theorem registry_uniqueness_witness:
  "buffers exampleWorkspace = []
   \<and> length (entriesFor (run exampleWorkspace exampleRun) 1) \<le> 1
   \<and> distinct (map fst (buffers (run exampleWorkspace exampleRun)))
   \<and> (\<exists>mid. trace (onBufCreate exampleEnv openWorkspace 1)
             = trace openWorkspace
               @ [Detach (exampleDocument 1), Fire (DidCloseTextDocument (exampleDocument 1))]
               @ mid @ [Fire (DidOpenTextDocument (exampleDocument 1))])
   \<and> map_of (buffers (onBufCreate exampleEnv openWorkspace 1)) 1 = Some (exampleDocument 1)"
proof -
  have a: "buffers exampleWorkspace = []"
    by (simp add: exampleWorkspace_def)
  have b: "map_of (buffers openWorkspace) 1 = Some (exampleDocument 1)
           \<and> 1 \<notin> creating openWorkspace \<and> bufloaded exampleEnv 1
           \<and> documentInit exampleEnv 1 = Inr (Some (exampleDocument 1))"
    by (simp add: openWorkspace_def exampleWorkspace_def exampleEnv_def)
  show ?thesis
    using registry_uniqueness [of exampleWorkspace exampleRun 1 1 "exampleDocument 1"
        exampleEnv "exampleDocument 1"]
      registry_uniqueness [of openWorkspace "[]" 1 1 "exampleDocument 1" exampleEnv
        "exampleDocument 1"] a b
    by simp
qed

text \<open>
  C10. For every URI that has no document and whose scheme is not \<^verbatim>\<open>file\<close>,
  \<^verbatim>\<open>readFile\<close> returns the empty string and raises nothing; the workspace is left as
  it is, and the result is the same whatever the file system holds, so no file is read.
\<close>

theorem readFile_other_scheme:
  assumes "getDocument s (Inr u) = None" and "uriScheme e u \<noteq> ''file''"
  shows "readFile e s u = (Inr [], s)
         \<and> readFile e (s\<lparr>disk := d\<rparr>) u = (Inr [], s\<lparr>disk := d\<rparr>)"
  using assms by (simp add: readFile_def)

theorem readFile_other_scheme_witness:
  "getDocument exampleWorkspace (Inr ''http://example.org/a.txt'') = None
   \<and> uriScheme exampleEnv ''http://example.org/a.txt'' = ''http''
   \<and> readFile exampleEnv exampleWorkspace ''http://example.org/a.txt''
       = (Inr [], exampleWorkspace)"
proof -
  have a: "getDocument exampleWorkspace (Inr ''http://example.org/a.txt'') = None"
    by (simp add: exampleWorkspace_def)
  have b: "uriScheme exampleEnv ''http://example.org/a.txt'' = ''http''"
    by (simp add: exampleEnv_def)
  have c: "uriScheme exampleEnv ''http://example.org/a.txt'' \<noteq> ''file''"
    using b by simp
  show ?thesis
    using readFile_other_scheme [OF a c] a b by simp
qed

end
